theory Spec2Isabelle
  imports Complex_Main "HOL-Library.AList"
begin

section \<open>Project Agent: action handlers for Jira and GitHub (src/index.js)\<close>

text \<open>
  The handlers of \<^verbatim>\<open>src/index.js\<close> are asynchronous JavaScript functions that fetch
  documents from Jira and GitHub and aggregate them. The embedding makes the effects
  explicit:
  \<^item> every upstream request is a field of the record \<open>world\<close>: a function from the
    parameters that the source interpolates into the request path to what the request
    yields (a thrown fault, or a response with its \<open>ok\<close> flag, status, body and parsed
    body);
  \<^item> an exception (a \<^verbatim>\<open>throw\<close>, a rejected promise) is the left summand of the
    result type \<open>js_error + 'a\<close>;
  \<^item> the clock (\<^verbatim>\<open>new Date()\<close>), the parser of date strings
    (\<^verbatim>\<open>new Date(s)\<close>), the lowercasing of text outside ASCII and the credential
    store are fields of \<open>world\<close> too.
  Documents are typed records; a field is an \<open>option\<close> exactly where the source
  guards it (\<^verbatim>\<open>?.\<close>, \<^verbatim>\<open>||\<close>, \<^verbatim>\<open>&&\<close>, \<^verbatim>\<open>=== false\<close>), with \<open>None\<close> for
  \<^verbatim>\<open>undefined\<close>/\<^verbatim>\<open>null\<close>. JavaScript treats the empty string as falsy, and the
  model does too (\<open>truthy\<close>). Numbers are integers where IEEE doubles are exact (the
  arithmetic on millisecond time values, the counts); a parsed integer beyond that
  range is marked as approximate (\<open>js_integer\<close>).
\<close>

subsection \<open>Errors, responses\<close>

datatype js_error =
  Error string      \<comment> \<open>\<^verbatim>\<open>new Error(message)\<close>\<close>
  | SyntaxError     \<comment> \<open>\<^verbatim>\<open>response.json()\<close> on a body that is not JSON\<close>

record 'd response =
  ok :: bool
  http_status :: nat
  body :: string
  json :: "'d option"  \<comment> \<open>the parsed body; \<open>None\<close>: \<^verbatim>\<open>response.json()\<close> rejects\<close>

datatype 'd fetched = Threw js_error | Resp "'d response"

text \<open>JavaScript truthiness of a value that is a string, \<^verbatim>\<open>null\<close> or \<^verbatim>\<open>undefined\<close>.\<close>

fun truthy :: "string option \<Rightarrow> bool" where
  "truthy None = False"
| "truthy (Some s) = (s \<noteq> [])"

subsection \<open>Decimal numerals\<close>

definition digit_chars :: "char list" where
  "digit_chars = ''0123456789''"

definition is_digit :: "char \<Rightarrow> bool" where
  "is_digit c = (c \<in> set digit_chars)"

text \<open>The value of a digit: its position in \<open>digit_chars\<close>.\<close>

definition digit_val :: "char \<Rightarrow> nat" where
  "digit_val c = length (takeWhile (\<lambda>d. d \<noteq> c) digit_chars)"

text \<open>
  The integer that a string of ASCII digits denotes in decimal notation, most
  significant digit first.
\<close>

definition mathInt :: "string \<Rightarrow> nat" where
  "mathInt ds = foldl (\<lambda>n c. 10 * n + digit_val c) 0 ds"

text \<open>
  A JavaScript number that comes from a non-negative integer. Up to
  \<^verbatim>\<open>Number.MAX_SAFE_INTEGER\<close>, \<open>2^53 - 1\<close>, the number is the integer itself. Beyond,
  it is the double that the engine makes of the integer (the nearest one; from 21
  digits on the engine may round the digits first): \<open>Approximately n\<close> stands for that
  double, whose value is not modelled.
\<close>

datatype js_integer = Exactly nat | Approximately nat

text \<open>
  \<^verbatim>\<open>parseInt(s, 10)\<close> on a non-empty string of ASCII digits (all the source applies it
  to: the group \<^verbatim>\<open>(\d+)\<close>).
\<close>

definition parseInt :: "string \<Rightarrow> js_integer" where
  "parseInt ds =
     (let n = mathInt ds in if n \<le> 9007199254740991 then Exactly n else Approximately n)"

text \<open>The decimal rendering of a number in a template literal (\<^verbatim>\<open>${response.status}\<close>).\<close>

function show_nat :: "nat \<Rightarrow> string" where
  "show_nat n = (if n < 10 then [digit_chars ! n]
                 else show_nat (n div 10) @ [digit_chars ! (n mod 10)])"
  by pat_completeness auto
termination
  by (relation "measure id") auto

declare show_nat.simps [simp del]

subsection \<open>GitHub documents\<close>

record check_run =
  run_name :: string                  \<comment> \<open>\<^verbatim>\<open>c.name\<close>\<close>
  run_status :: string                \<comment> \<open>\<^verbatim>\<open>c.status\<close>\<close>
  conclusion :: "string option"       \<comment> \<open>\<^verbatim>\<open>c.conclusion\<close>, \<open>None\<close> for \<^verbatim>\<open>null\<close>\<close>

record checks_doc =
  check_runs :: "check_run list option"

record check_summary =
  total :: nat
  passed :: nat
  failed :: nat
  pending :: nat
  failedNames :: "string list"

record review =
  user_login :: string                \<comment> \<open>\<^verbatim>\<open>review.user.login\<close>\<close>
  review_state :: string              \<comment> \<open>\<^verbatim>\<open>review.state\<close>\<close>
  submitted_at :: string

record pr_doc =
  pr_number :: nat
  pr_title :: string
  pr_user_login :: string             \<comment> \<open>\<^verbatim>\<open>pr.user.login\<close>\<close>
  pr_state :: string
  pr_draft :: bool
  pr_mergeable :: "bool option"       \<comment> \<open>\<^verbatim>\<open>pr.mergeable\<close>: true, false or \<^verbatim>\<open>null\<close>\<close>
  pr_mergeable_state :: string
  pr_additions :: nat
  pr_deletions :: nat
  changed_files :: nat
  head_sha :: string                  \<comment> \<open>\<^verbatim>\<open>pr.head.sha\<close>\<close>

record search_item =
  item_number :: nat
  item_title :: string
  item_user_login :: string
  repository_url :: string
  item_state :: string

record search_doc =
  items :: "search_item list option"

subsection \<open>Jira documents\<close>

record issue_doc =
  issue_id :: string
  issue_key :: string
  fields_summary :: string                        \<comment> \<open>\<^verbatim>\<open>issue.fields.summary\<close>\<close>
  fields_status_name :: "string option"           \<comment> \<open>\<^verbatim>\<open>issue.fields.status?.name\<close>\<close>
  fields_assignee_displayName :: "string option"  \<comment> \<open>\<^verbatim>\<open>issue.fields.assignee?.displayName\<close>\<close>

record pr_ref =
  url :: "string option"
  ref_status :: "string option"       \<comment> \<open>\<^verbatim>\<open>pr.status\<close>\<close>

record detail_group =
  pullRequests :: "pr_ref list option"

record panel_doc =
  detail :: "detail_group list option"

record board =
  board_id :: nat

record boards_doc =
  board_values :: "board list option"      \<comment> \<open>\<^verbatim>\<open>boards.values\<close>\<close>

record sprint_doc =
  sprint_id :: nat
  sprint_name :: string
  sprint_goal :: "string option"
  endDate :: "string option"

record sprints_doc =
  sprint_values :: "sprint_doc list option"  \<comment> \<open>\<^verbatim>\<open>sprints.values\<close>\<close>

record sprint_issues_doc =
  data_issues :: "issue_doc list option"   \<comment> \<open>\<^verbatim>\<open>issuesData.issues\<close>\<close>

subsection \<open>The world the handlers run in\<close>

record world =
  GITHUB_TOKEN :: "string option"     \<comment> \<open>\<^verbatim>\<open>storage.get('GITHUB_TOKEN')\<close>\<close>
  now :: int                          \<comment> \<open>\<^verbatim>\<open>new Date()\<close>, milliseconds since the epoch\<close>
  Date_parse :: "string \<Rightarrow> int option"
    \<comment> \<open>the time value of \<^verbatim>\<open>new Date(s)\<close>; \<open>None\<close> is an invalid date (NaN)\<close>
  toLowerCase_unicode :: "string \<Rightarrow> string"
    \<comment> \<open>\<^verbatim>\<open>s.toLowerCase()\<close> for a string with a character outside ASCII\<close>
  jira_issue :: "string \<Rightarrow> issue_doc fetched"
  jira_dev_status :: "string \<Rightarrow> panel_doc fetched"
  jira_board :: "string \<Rightarrow> boards_doc fetched"
  jira_sprint :: "nat \<Rightarrow> sprints_doc fetched"
  jira_sprint_issue :: "nat \<Rightarrow> sprint_issues_doc fetched"
  github_pull :: "string \<Rightarrow> nat \<Rightarrow> pr_doc fetched"
  github_reviews :: "string \<Rightarrow> nat \<Rightarrow> review list fetched"
  github_check_runs :: "string \<Rightarrow> string \<Rightarrow> checks_doc fetched"
  github_search :: "string \<Rightarrow> search_doc fetched"
  reviews_reject_first :: bool
    \<comment> \<open>when both requests of the \<^verbatim>\<open>Promise.all\<close> fail: whether the second rejects first\<close>

subsection \<open>GitHub actions\<close>

definition getGitHubToken :: "world \<Rightarrow> js_error + string" where
  "getGitHubToken w =
     (case GITHUB_TOKEN w of
        None \<Rightarrow> Inl (Error ''GITHUB_TOKEN not configured. Run: forge storage set GITHUB_TOKEN <token>'')
      | Some token \<Rightarrow>
          if token = [] then
            Inl (Error ''GITHUB_TOKEN not configured. Run: forge storage set GITHUB_TOKEN <token>'')
          else Inr token)"

text \<open>
  \<^verbatim>\<open>github(path)\<close>. The second argument is what \<^verbatim>\<open>fetch\<close> yields for the path.
\<close>

definition github :: "world \<Rightarrow> 'd fetched \<Rightarrow> js_error + 'd" where
  "github w r =
     (case getGitHubToken w of
        Inl e \<Rightarrow> Inl e
      | Inr token \<Rightarrow>
          (case r of
             Threw e \<Rightarrow> Inl e
           | Resp response \<Rightarrow>
               if \<not> ok response then
                 Inl (Error (''GitHub API error '' @ show_nat (http_status response)
                              @ '': '' @ body response))
               else (case json response of None \<Rightarrow> Inl SyntaxError | Some d \<Rightarrow> Inr d)))"

definition fetchChecks :: "world \<Rightarrow> string \<Rightarrow> string \<Rightarrow> js_error + check_summary" where
  "fetchChecks w repo sha =
     (case github w (github_check_runs w repo sha) of
        Inl e \<Rightarrow> Inl e
      | Inr data \<Rightarrow>
          (let runs = (case check_runs data of None \<Rightarrow> [] | Some rs \<Rightarrow> rs);
               passed = length (filter (\<lambda>c. conclusion c = Some ''success'') runs);
               failed = length (filter (\<lambda>c. truthy (conclusion c)
                                          \<and> conclusion c \<noteq> Some ''success'') runs);
               pending = length (filter (\<lambda>c. run_status c \<noteq> ''completed'') runs);
               failedNames = map run_name
                  (filter (\<lambda>c. truthy (conclusion c) \<and> conclusion c \<noteq> Some ''success'') runs)
           in Inr \<lparr>total = length runs, passed = passed, failed = failed,
                    pending = pending, failedNames = failedNames\<rparr>))"


subsubsection \<open>The latest review of each user\<close>

text \<open>
  \<^verbatim>\<open>reviewsByUser\<close> is an ordinary object \<^verbatim>\<open>{}\<close>: the list of its own properties, in
  the order they were created. Reading \<^verbatim>\<open>reviewsByUser[user]\<close> also finds what the
  object inherits from \<^verbatim>\<open>Object.prototype\<close>: for these keys the read yields a function
  (or, for \<^verbatim>\<open>__proto__\<close>, the prototype), which is truthy and has no \<^verbatim>\<open>date\<close>.
\<close>

record verdict =
  verdict_state :: string      \<comment> \<open>\<^verbatim>\<open>state: review.state\<close>\<close>
  verdict_date :: string       \<comment> \<open>\<^verbatim>\<open>date: review.submitted_at\<close>\<close>

definition Object_prototype_keys :: "string list" where
  "Object_prototype_keys =
     [''constructor'', ''hasOwnProperty'', ''isPrototypeOf'', ''propertyIsEnumerable'',
      ''toLocaleString'', ''toString'', ''valueOf'', ''__proto__'',
      ''__defineGetter__'', ''__defineSetter__'', ''__lookupGetter__'', ''__lookupSetter__'']"

datatype 'a property = Undefined | Own 'a | Inherited

definition get_property :: "(string \<times> 'a) list \<Rightarrow> string \<Rightarrow> 'a property" where
  "get_property obj k =
     (case map_of obj k of
        Some v \<Rightarrow> Own v
      | None \<Rightarrow> if k \<in> set Object_prototype_keys then Inherited else Undefined)"

text \<open>
  \<^verbatim>\<open>a > b\<close> on two dates compares their time values; with an invalid date (NaN) on
  either side it is false.
\<close>

fun date_gt :: "int option \<Rightarrow> int option \<Rightarrow> bool" where
  "date_gt (Some a) (Some b) = (a > b)"
| "date_gt _ _ = False"

text \<open>
  The body of the loop over \<^verbatim>\<open>reviews\<close>. An own entry is an object, hence truthy; an
  inherited value is truthy too and its \<^verbatim>\<open>date\<close> is \<^verbatim>\<open>undefined\<close>, an invalid date.
  The assignment creates the property at the end, or overwrites it in place.
\<close>

definition review_step ::
  "world \<Rightarrow> (string \<times> verdict) list \<Rightarrow> review \<Rightarrow> (string \<times> verdict) list" where
  "review_step w reviewsByUser review =
     (let user = user_login review;
          existing = get_property reviewsByUser user;
          reviewDate = Date_parse w (submitted_at review)
      in if (case existing of
               Undefined \<Rightarrow> True
             | Own e \<Rightarrow> date_gt reviewDate (Date_parse w (verdict_date e))
             | Inherited \<Rightarrow> date_gt reviewDate None)
         then AList.update user
                \<lparr>verdict_state = review_state review, verdict_date = submitted_at review\<rparr>
                reviewsByUser
         else reviewsByUser)"

definition reviewsByUser :: "world \<Rightarrow> review list \<Rightarrow> (string \<times> verdict) list" where
  "reviewsByUser w reviews = foldl (review_step w) [] reviews"

text \<open>
  \<^verbatim>\<open>Object.entries\<close> lists the own properties: first the keys that are array indices
  (canonical decimal numerals below \<open>2^32 - 1\<close>) in ascending numeric order, then the
  other keys in the order of their creation.
\<close>

definition is_array_index :: "string \<Rightarrow> bool" where
  "is_array_index k =
     (k \<noteq> [] \<and> list_all is_digit k \<and> (k = ''0'' \<or> hd k \<noteq> CHR ''0'')
      \<and> mathInt k < 4294967295)"

definition Object_entries :: "(string \<times> 'a) list \<Rightarrow> (string \<times> 'a) list" where
  "Object_entries obj =
     sort_key (\<lambda>p. mathInt (fst p)) (filter (\<lambda>p. is_array_index (fst p)) obj)
     @ filter (\<lambda>p. \<not> is_array_index (fst p)) obj"

record review_lists =
  approved :: "string list"
  changesRequested :: "string list"

definition classify :: "review_lists \<Rightarrow> string \<times> verdict \<Rightarrow> review_lists" where
  "classify acc entry =
     (case entry of (user, review) \<Rightarrow>
        (let acc1 = (if verdict_state review = ''APPROVED''
                     then acc\<lparr>approved := approved acc @ [user]\<rparr> else acc)
         in if verdict_state review = ''CHANGES_REQUESTED''
            then acc1\<lparr>changesRequested := changesRequested acc1 @ [user]\<rparr> else acc1))"

subsubsection \<open>\<^verbatim>\<open>getPRStatus\<close>\<close>

record pr_status =
  st_number :: nat
  st_title :: string
  st_author :: string
  st_state :: string
  st_draft :: bool
  st_mergeable :: "bool option"
  mergeConflicts :: bool
  st_additions :: nat
  st_deletions :: nat
  st_files :: nat
  reviews :: review_lists
  checks :: check_summary

text \<open>
  \<^verbatim>\<open>Promise.all\<close> of two promises: both values, or the rejection that comes first.
\<close>

definition promise_all :: "bool \<Rightarrow> js_error + 'a \<Rightarrow> js_error + 'b \<Rightarrow> js_error + 'a \<times> 'b" where
  "promise_all second_first p q =
     (case p of
        Inr a \<Rightarrow> (case q of Inr b \<Rightarrow> Inr (a, b) | Inl e \<Rightarrow> Inl e)
      | Inl e \<Rightarrow> (case q of Inr b \<Rightarrow> Inl e | Inl e' \<Rightarrow> Inl (if second_first then e' else e)))"

definition getPRStatus :: "world \<Rightarrow> string \<Rightarrow> nat \<Rightarrow> js_error + pr_status" where
  "getPRStatus w repo number =
     (case promise_all (reviews_reject_first w)
             (github w (github_pull w repo number))
             (github w (github_reviews w repo number)) of
        Inl e \<Rightarrow> Inl e
      | Inr (pr, review_list) \<Rightarrow>
          (case fetchChecks w repo (head_sha pr) of
             Inl e \<Rightarrow> Inl e
           | Inr summary \<Rightarrow>
               (let byUser = reviewsByUser w review_list;
                    lists = foldl classify \<lparr>approved = [], changesRequested = []\<rparr>
                              (Object_entries byUser);
                    conflicts = (pr_mergeable pr = Some False
                                 \<or> pr_mergeable_state pr = ''dirty'')
                in Inr \<lparr>st_number = pr_number pr, st_title = pr_title pr,
                         st_author = pr_user_login pr, st_state = pr_state pr,
                         st_draft = pr_draft pr, st_mergeable = pr_mergeable pr,
                         mergeConflicts = conflicts,
                         st_additions = pr_additions pr, st_deletions = pr_deletions pr,
                         st_files = changed_files pr, reviews = lists, checks = summary\<rparr>)))"

subsubsection \<open>\<^verbatim>\<open>searchPRs\<close>\<close>

record search_hit =
  hit_number :: nat
  hit_title :: string
  hit_author :: string
  hit_repo :: string
  hit_state :: string

text \<open>\<^verbatim>\<open>s.replace(p, '')\<close> with a string pattern: the first occurrence is removed.\<close>

fun strip_prefix :: "string \<Rightarrow> string \<Rightarrow> string option" where
  "strip_prefix [] s = Some s"
| "strip_prefix (p # ps) [] = None"
| "strip_prefix (p # ps) (c # cs) = (if p = c then strip_prefix ps cs else None)"

fun remove_first :: "string \<Rightarrow> string \<Rightarrow> string" where
  "remove_first p [] = []"
| "remove_first p (c # cs) =
     (case strip_prefix p (c # cs) of Some rest \<Rightarrow> rest | None \<Rightarrow> c # remove_first p cs)"

definition searchPRs :: "world \<Rightarrow> string \<Rightarrow> js_error + search_hit list" where
  "searchPRs w q =
     (case github w (github_search w (''is:pr '' @ q)) of
        Inl e \<Rightarrow> Inl e
      | Inr data \<Rightarrow>
          Inr (map (\<lambda>pr. \<lparr>hit_number = item_number pr, hit_title = item_title pr,
                           hit_author = item_user_login pr,
                           hit_repo = remove_first ''https://api.github.com/repos/''
                                        (repository_url pr),
                           hit_state = item_state pr\<rparr>)
                 (case items data of None \<Rightarrow> [] | Some xs \<Rightarrow> xs)))"

subsection \<open>Jira actions\<close>

subsubsection \<open>The pull-request URL pattern\<close>

text \<open>
  \<^verbatim>\<open>url.match(/github\.com\/([^/]+\/[^/]+)\/pull\/(\d+)/)\<close>. The pattern is not
  anchored: the match is the leftmost one. At a given start the match is determined:
  \<^verbatim>\<open>[^/]+\<close> is greedy and must be followed by a slash, so it takes the whole run of
  characters up to the next slash, and \<^verbatim>\<open>\d+\<close>, the last item, takes the whole run of
  digits. \<open>match_here\<close> is the match at the start of the string, \<open>regex_match\<close> the
  search; both return the groups 1 and 2.
\<close>

definition match_here :: "string \<Rightarrow> (string \<times> string) option" where
  "match_here s =
     (case strip_prefix ''github.com/'' s of
        None \<Rightarrow> None
      | Some s1 \<Rightarrow>
          (let owner = takeWhile (\<lambda>c. c \<noteq> CHR ''/'') s1 in
           if owner = [] then None
           else (case strip_prefix ''/'' (dropWhile (\<lambda>c. c \<noteq> CHR ''/'') s1) of
             None \<Rightarrow> None
           | Some s2 \<Rightarrow>
               (let name = takeWhile (\<lambda>c. c \<noteq> CHR ''/'') s2 in
                if name = [] then None
                else (case strip_prefix ''/pull/'' (dropWhile (\<lambda>c. c \<noteq> CHR ''/'') s2) of
                  None \<Rightarrow> None
                | Some s3 \<Rightarrow>
                    (let digits = takeWhile is_digit s3 in
                     if digits = [] then None
                     else Some (owner @ ''/'' @ name, digits)))))))"

fun regex_match :: "string \<Rightarrow> (string \<times> string) option" where
  "regex_match [] = match_here []"
| "regex_match (c # cs) =
     (case match_here (c # cs) of Some m \<Rightarrow> Some m | None \<Rightarrow> regex_match cs)"

text \<open>
  \<^verbatim>\<open>toLowerCase\<close>. On a string of ASCII characters it maps the letters A to Z to a
  to z and leaves every other character as it is. The strings of the model are byte
  strings; what JavaScript does to a string with a character outside ASCII is the
  field \<open>toLowerCase_unicode\<close> of the world.
\<close>

definition lower_char :: "char \<Rightarrow> char" where
  "lower_char c =
     (case map_of (zip ''ABCDEFGHIJKLMNOPQRSTUVWXYZ'' ''abcdefghijklmnopqrstuvwxyz'') c of
        Some l \<Rightarrow> l
      | None \<Rightarrow> c)"

definition is_ascii :: "char \<Rightarrow> bool" where
  "is_ascii c = (of_char c < (128::nat))"

definition toLowerCase :: "world \<Rightarrow> string \<Rightarrow> string" where
  "toLowerCase w s =
     (if list_all is_ascii s then map lower_char s else toLowerCase_unicode w s)"

subsubsection \<open>\<^verbatim>\<open>fetchLinkedPRs\<close>\<close>

record linked_pr =
  repo :: string
  number :: js_integer
  state :: string

text \<open>The body of the inner loop: \<^verbatim>\<open>prs.push(...)\<close> when the URL matches.\<close>

definition push_pr :: "world \<Rightarrow> linked_pr list \<Rightarrow> pr_ref \<Rightarrow> linked_pr list" where
  "push_pr w prs pr =
     (case (case url pr of None \<Rightarrow> None | Some u \<Rightarrow> regex_match u) of
        None \<Rightarrow> prs
      | Some m \<Rightarrow>
          prs @ [\<lparr>repo = fst m,
                   number = parseInt (snd m),
                   state = (let lowered = map_option (toLowerCase w) (ref_status pr)
                            in if truthy lowered then the lowered else ''unknown'')\<rparr>])"

definition collect_prs :: "world \<Rightarrow> panel_doc \<Rightarrow> linked_pr list" where
  "collect_prs w data =
     foldl (\<lambda>prs d. foldl (push_pr w) prs (case pullRequests d of None \<Rightarrow> [] | Some rs \<Rightarrow> rs))
       [] (case detail data of None \<Rightarrow> [] | Some ds \<Rightarrow> ds)"

text \<open>The \<^verbatim>\<open>try\<close> block, and the function with its \<^verbatim>\<open>catch\<close>.\<close>

definition fetchLinkedPRs_try :: "world \<Rightarrow> string \<Rightarrow> js_error + linked_pr list" where
  "fetchLinkedPRs_try w issueId =
     (case jira_dev_status w issueId of
        Threw e \<Rightarrow> Inl e
      | Resp response \<Rightarrow>
          if \<not> ok response then Inr []
          else (case json response of
                  None \<Rightarrow> Inl SyntaxError
                | Some data \<Rightarrow> Inr (collect_prs w data)))"

definition fetchLinkedPRs :: "world \<Rightarrow> string \<Rightarrow> linked_pr list" where
  "fetchLinkedPRs w issueId =
     (case fetchLinkedPRs_try w issueId of Inl error \<Rightarrow> [] | Inr prs \<Rightarrow> prs)"

subsubsection \<open>\<^verbatim>\<open>getIssue\<close>\<close>

record issue_summary =
  key :: string
  summary :: string
  status :: "string option"     \<comment> \<open>\<open>None\<close> is \<^verbatim>\<open>undefined\<close>\<close>
  assignee :: "string option"   \<comment> \<open>\<open>None\<close> is \<^verbatim>\<open>null\<close>\<close>

record issue_view = issue_summary +
  prs :: "linked_pr list"

text \<open>\<^verbatim>\<open>x || null\<close> on a string that may be absent.\<close>

definition or_null :: "string option \<Rightarrow> string option" where
  "or_null x = (if truthy x then x else None)"

definition getIssue :: "world \<Rightarrow> string \<Rightarrow> js_error + issue_view" where
  "getIssue w issueKey =
     (case jira_issue w issueKey of
        Threw e \<Rightarrow> Inl e
      | Resp response \<Rightarrow>
          if \<not> ok response then Inl (Error (''Issue not found: '' @ issueKey))
          else (case json response of
                  None \<Rightarrow> Inl SyntaxError
                | Some issue \<Rightarrow>
                    (let linked = fetchLinkedPRs w (issue_id issue)
                     in Inr \<lparr>key = issue_key issue, summary = fields_summary issue,
                              status = fields_status_name issue,
                              assignee = or_null (fields_assignee_displayName issue),
                              prs = linked\<rparr>)))"

subsubsection \<open>\<^verbatim>\<open>getSprint\<close>\<close>

datatype js_number = NaN | Number int

record sprint_view =
  name :: string
  goal :: "string option"
  daysRemaining :: "js_number option"    \<comment> \<open>\<open>None\<close> is \<^verbatim>\<open>null\<close>\<close>
  issues :: "issue_summary list"

text \<open>
  The two shapes \<^verbatim>\<open>getSprint\<close> returns: \<^verbatim>\<open>{name, message, issues}\<close> and
  \<^verbatim>\<open>{name, goal, daysRemaining, issues}\<close>.
\<close>

datatype sprint_result =
  NoSprint "string option" string "issue_summary list"
  | Sprint sprint_view

text \<open>\<^verbatim>\<open>xs?.[0]\<close>: the first element, \<^verbatim>\<open>undefined\<close> without a list or in an empty one.\<close>

fun first_of :: "'a list option \<Rightarrow> 'a option" where
  "first_of None = None"
| "first_of (Some []) = None"
| "first_of (Some (x # xs)) = Some x"

text \<open>\<^verbatim>\<open>Math.ceil(a / b)\<close> for a positive \<open>b\<close>, on integers.\<close>

definition ceil_div :: "int \<Rightarrow> int \<Rightarrow> int" where
  "ceil_div a b = - ((- a) div b)"

definition days_remaining :: "world \<Rightarrow> sprint_doc \<Rightarrow> js_number option" where
  "days_remaining w sprint =
     (if truthy (endDate sprint) then
        Some (case Date_parse w (the (endDate sprint)) of
                None \<Rightarrow> NaN
              | Some end_ms \<Rightarrow>
                  Number (max 0 (ceil_div (end_ms - now w) (1000 * 60 * 60 * 24))))
      else None)"

definition getSprint :: "world \<Rightarrow> string \<Rightarrow> js_error + sprint_result" where
  "getSprint w projectKey =
     (case jira_board w projectKey of
        Threw e \<Rightarrow> Inl e
      | Resp boardResponse \<Rightarrow>
          if \<not> ok boardResponse then
            Inl (Error (''No board found for project: '' @ projectKey))
          else (case json boardResponse of
            None \<Rightarrow> Inl SyntaxError
          | Some boards \<Rightarrow>
              (case first_of (board_values boards) of
                 None \<Rightarrow> Inl (Error (''No board found for project: '' @ projectKey))
               | Some board \<Rightarrow>
                   (case jira_sprint w (board_id board) of
                      Threw e \<Rightarrow> Inl e
                    | Resp sprintResponse \<Rightarrow>
                        if \<not> ok sprintResponse then
                          Inr (NoSprint None ''No active sprint'' [])
                        else (case json sprintResponse of
                          None \<Rightarrow> Inl SyntaxError
                        | Some sprints \<Rightarrow>
                            (case first_of (sprint_values sprints) of
                               None \<Rightarrow> Inr (NoSprint None ''No active sprint'' [])
                             | Some sprint \<Rightarrow>
                                 (case jira_sprint_issue w (sprint_id sprint) of
                                    Threw e \<Rightarrow> Inl e
                                  | Resp issuesResponse \<Rightarrow>
                                      (case json issuesResponse of
                                         None \<Rightarrow> Inl SyntaxError
                                       | Some issuesData \<Rightarrow>
                                           Inr (Sprint
                                             \<lparr>name = sprint_name sprint,
                                              goal = or_null (sprint_goal sprint),
                                              daysRemaining = days_remaining w sprint,
                                              issues = map (\<lambda>issue.
                                                  \<lparr>key = issue_key issue,
                                                   summary = fields_summary issue,
                                                   status = fields_status_name issue,
                                                   assignee = or_null
                                                     (fields_assignee_displayName issue)\<rparr>)
                                                (case data_issues issuesData of
                                                   None \<Rightarrow> [] | Some xs \<Rightarrow> xs)\<rparr>)))))))))"

section \<open>Vocabulary of the properties\<close>

text \<open>The time value of a review's timestamp, where the timestamp is a valid date.\<close>

definition time_of :: "world \<Rightarrow> review \<Rightarrow> int" where
  "time_of w r = the (Date_parse w (submitted_at r))"

text \<open>The entry that the loop of \<^verbatim>\<open>getPRStatus\<close> stores for a review.\<close>

definition verdict_of :: "review \<Rightarrow> verdict" where
  "verdict_of r = \<lparr>verdict_state = review_state r, verdict_date = submitted_at r\<rparr>"

text \<open>The pull-request references of a development-panel document, in order.\<close>

definition references :: "panel_doc \<Rightarrow> pr_ref list" where
  "references data =
     concat (map (\<lambda>d. case pullRequests d of None \<Rightarrow> [] | Some rs \<Rightarrow> rs)
               (case detail data of None \<Rightarrow> [] | Some ds \<Rightarrow> ds))"

text \<open>
  A URL has the shape \<^verbatim>\<open>github.com/<owner>/<name>/pull/<digits>\<close> after the prefix
  \<open>pre\<close> and before the remainder \<open>rest\<close>: the owner and the name are non-empty and
  without a slash, the digits are a non-empty string of ASCII digits.
\<close>

definition pr_url_at ::
  "string \<Rightarrow> string \<Rightarrow> string \<Rightarrow> string \<Rightarrow> string \<Rightarrow> string \<Rightarrow> bool" where
  "pr_url_at u pre owner nm ds rest \<longleftrightarrow>
     u = pre @ ''github.com/'' @ owner @ ''/'' @ nm @ ''/pull/'' @ ds @ rest
     \<and> owner \<noteq> [] \<and> nm \<noteq> [] \<and> ds \<noteq> []
     \<and> CHR ''/'' \<notin> set owner \<and> CHR ''/'' \<notin> set nm \<and> list_all is_digit ds"

text \<open>
  What the pattern captures in a URL: the owner, name and digits of the leftmost place
  where the URL has the shape, with all the digits that stand there (the remainder
  does not begin with a digit).
\<close>

definition captures :: "string \<Rightarrow> string \<Rightarrow> string \<Rightarrow> string \<Rightarrow> bool" where
  "captures u owner nm ds \<longleftrightarrow>
     (\<exists>pre rest. pr_url_at u pre owner nm ds rest
        \<and> (rest = [] \<or> \<not> is_digit (hd rest))
        \<and> (\<forall>pre' owner' nm' ds' rest'.
              pr_url_at u pre' owner' nm' ds' rest' \<longrightarrow> length pre \<le> length pre'))"

text \<open>The code of a character, and the value of a decimal numeral as the sum of its
  digits times the powers of ten.\<close>

definition char_code :: "char \<Rightarrow> nat" where
  "char_code c = of_char c"

definition decimal_value :: "string \<Rightarrow> nat" where
  "decimal_value ds =
     (\<Sum>i<length ds. (char_code (ds ! i) - 48) * 10 ^ (length ds - Suc i))"

text \<open>Lowercasing in ASCII: the codes 65 to 90 (A to Z) move up by 32.\<close>

definition ascii_lower :: "char \<Rightarrow> char" where
  "ascii_lower c =
     (if 65 \<le> char_code c \<and> char_code c \<le> 90 then char_of (char_code c + 32) else c)"

text \<open>
  What the resolver is to emit for one pull-request reference: nothing without a URL
  or with a URL that has the shape nowhere; otherwise one linked PR, with the captured
  owner and name as \<open>repo\<close>, the decimal value of the captured digits as \<open>number\<close> and
  the lowercased status, or \<^verbatim>\<open>unknown\<close> without a status, as \<open>state\<close>.
\<close>

definition emits :: "pr_ref \<Rightarrow> linked_pr list \<Rightarrow> bool" where
  "emits pr out \<longleftrightarrow>
     (case url pr of
        None \<Rightarrow> out = []
      | Some u \<Rightarrow>
          if (\<exists>pre owner nm ds rest. pr_url_at u pre owner nm ds rest)
          then (\<exists>owner nm ds. captures u owner nm ds
                  \<and> out = [\<lparr>repo = owner @ ''/'' @ nm,
                             number = Exactly (decimal_value ds),
                             state = (case ref_status pr of
                                        None \<Rightarrow> ''unknown''
                                      | Some s \<Rightarrow> map ascii_lower s)\<rparr>])
          else out = [])"

text \<open>
  The sprint query reaches the sprint \<open>sprint\<close> and the issues document \<open>d\<close>: the board
  fetch succeeds with a first board, the fetch of that board's active sprints succeeds
  with \<open>sprint\<close> first, and the body of the issues response parses to \<open>d\<close>.
\<close>

definition finds_sprint :: "world \<Rightarrow> string \<Rightarrow> sprint_doc \<Rightarrow> sprint_issues_doc \<Rightarrow> bool" where
  "finds_sprint w p sprint d \<longleftrightarrow>
     (\<exists>rb bs b bt rs ss st ri.
        jira_board w p = Resp rb \<and> ok rb \<and> json rb = Some bs
        \<and> board_values bs = Some (b # bt)
        \<and> jira_sprint w (board_id b) = Resp rs \<and> ok rs \<and> json rs = Some ss
        \<and> sprint_values ss = Some (sprint # st)
        \<and> jira_sprint_issue w (sprint_id sprint) = Resp ri \<and> json ri = Some d)"

text \<open>The error that \<^verbatim>\<open>github\<close> throws for a non-success response.\<close>

definition github_error :: "'d response \<Rightarrow> js_error" where
  "github_error r =
     Error (''GitHub API error '' @ show_nat (http_status r) @ '': '' @ body r)"

section \<open>Example worlds\<close>

text \<open>
  Concrete inputs on which the theorems below are instantiated. \<open>offline\<close> is a world
  in which every request fails in transport; the examples replace single requests.
\<close>

definition iso_dates :: "string \<Rightarrow> int option" where
  "iso_dates =
     map_of [(''2024-01-01T00:00:00Z'', 1704067200000),
             (''2024-01-02T00:00:00Z'', 1704153600000),
             (''2024-01-02T12:00:00Z'', 1704196800000)]"

definition offline :: world where
  "offline =
     \<lparr>GITHUB_TOKEN = Some ''secret'', now = 1704067200000, Date_parse = iso_dates,
      toLowerCase_unicode = (\<lambda>s. s),
      jira_issue = (\<lambda>k. Threw (Error ''offline'')),
      jira_dev_status = (\<lambda>i. Threw (Error ''offline'')),
      jira_board = (\<lambda>p. Threw (Error ''offline'')),
      jira_sprint = (\<lambda>b. Threw (Error ''offline'')),
      jira_sprint_issue = (\<lambda>s. Threw (Error ''offline'')),
      github_pull = (\<lambda>r n. Threw (Error ''offline'')),
      github_reviews = (\<lambda>r n. Threw (Error ''offline'')),
      github_check_runs = (\<lambda>r s. Threw (Error ''offline'')),
      github_search = (\<lambda>q. Threw (Error ''offline'')),
      reviews_reject_first = False\<rparr>"

definition ok_response :: "'d \<Rightarrow> 'd response" where
  "ok_response d = \<lparr>ok = True, http_status = 200, body = [], json = Some d\<rparr>"

definition error_response :: "nat \<Rightarrow> string \<Rightarrow> 'd option \<Rightarrow> 'd response" where
  "error_response n b d = \<lparr>ok = False, http_status = n, body = b, json = d\<rparr>"

definition three_runs :: "check_run list" where
  "three_runs =
     [\<lparr>run_name = ''build'', run_status = ''completed'', conclusion = Some ''success''\<rparr>,
      \<lparr>run_name = ''lint'', run_status = ''in_progress'', conclusion = Some ''failure''\<rparr>,
      \<lparr>run_name = ''deploy'', run_status = ''queued'', conclusion = None\<rparr>]"

definition demo_pr :: pr_doc where
  "demo_pr =
     \<lparr>pr_number = 42, pr_title = ''Add widgets'', pr_user_login = ''alice'',
      pr_state = ''open'', pr_draft = False, pr_mergeable = None,
      pr_mergeable_state = ''unknown'', pr_additions = 10, pr_deletions = 2,
      changed_files = 3, head_sha = ''abc''\<rparr>"

definition github_world :: "pr_doc \<Rightarrow> review list \<Rightarrow> check_run list \<Rightarrow> world" where
  "github_world pr rs runs =
     offline\<lparr>github_pull := (\<lambda>r n. Resp (ok_response pr)),
             github_reviews := (\<lambda>r n. Resp (ok_response rs)),
             github_check_runs := (\<lambda>r s. Resp (ok_response \<lparr>check_runs = Some runs\<rparr>))\<rparr>"

definition two_reviews :: "review list" where
  "two_reviews =
     [\<lparr>user_login = ''a'', review_state = ''APPROVED'',
       submitted_at = ''2024-01-01T00:00:00Z''\<rparr>,
      \<lparr>user_login = ''a'', review_state = ''CHANGES_REQUESTED'',
       submitted_at = ''2024-01-02T00:00:00Z''\<rparr>]"

definition constructor_review :: review where
  "constructor_review =
     \<lparr>user_login = ''constructor'', review_state = ''APPROVED'',
      submitted_at = ''2024-01-01T00:00:00Z''\<rparr>"

text \<open>A world in which the development panel of every issue is the given document.\<close>

definition panel_world :: "panel_doc \<Rightarrow> world" where
  "panel_world data = offline\<lparr>jira_dev_status := (\<lambda>i. Resp (ok_response data))\<rparr>"

definition widgets_panel :: panel_doc where
  "widgets_panel =
     \<lparr>detail = Some [\<lparr>pullRequests = Some
        [\<lparr>url = Some ''https://github.com/acme/widgets/pull/42'', ref_status = Some ''OPEN''\<rparr>,
         \<lparr>url = Some ''https://example.org/acme/widgets'', ref_status = Some ''MERGED''\<rparr>,
         \<lparr>url = None, ref_status = None\<rparr>]\<rparr>]\<rparr>"

definition demo_issue :: issue_doc where
  "demo_issue =
     \<lparr>issue_id = ''10001'', issue_key = ''PROJ-1'', fields_summary = ''Fix login'',
      fields_status_name = Some ''In Progress'', fields_assignee_displayName = None\<rparr>"

definition issue_world :: "issue_doc response \<Rightarrow> panel_doc fetched \<Rightarrow> world" where
  "issue_world r p = offline\<lparr>jira_issue := (\<lambda>k. Resp r), jira_dev_status := (\<lambda>i. p)\<rparr>"

text \<open>A world with the given answers to the three requests of the sprint query.\<close>

definition sprint_world ::
  "boards_doc response \<Rightarrow> sprints_doc fetched \<Rightarrow> sprint_issues_doc fetched \<Rightarrow> world" where
  "sprint_world rb fs fi =
     offline\<lparr>jira_board := (\<lambda>p. Resp rb), jira_sprint := (\<lambda>b. fs),
             jira_sprint_issue := (\<lambda>s. fi)\<rparr>"

definition one_board :: "boards_doc response" where
  "one_board = ok_response \<lparr>board_values = Some [\<lparr>board_id = 3\<rparr>]\<rparr>"

definition demo_sprint :: sprint_doc where
  "demo_sprint =
     \<lparr>sprint_id = 7, sprint_name = ''Sprint 12'', sprint_goal = Some ''Ship it'',
      endDate = Some ''2024-01-02T12:00:00Z''\<rparr>"

definition one_sprint :: "sprint_doc \<Rightarrow> sprints_doc fetched" where
  "one_sprint sprint = Resp (ok_response \<lparr>sprint_values = Some [sprint]\<rparr>)"

definition no_issues :: "sprint_issues_doc fetched" where
  "no_issues = Resp (ok_response \<lparr>data_issues = Some []\<rparr>)"

definition not_found :: "'d response" where
  "not_found = error_response 404 ''Not Found'' None"

definition server_error :: "'d response" where
  "server_error = error_response 500 ''Internal Server Error'' None"

section \<open>Properties\<close>

subsection \<open>CheckRollup\<close>

text \<open>What \<^verbatim>\<open>fetchChecks\<close> returns once the check runs are fetched, for any list of runs.\<close>

lemma fetchChecks_exact:
  assumes "github w (github_check_runs w rp sha) = Inr data"
  shows "fetchChecks w rp sha =
     (let runs = (case check_runs data of None \<Rightarrow> [] | Some rs \<Rightarrow> rs) in
      Inr \<lparr>total = length runs,
           passed = length (filter (\<lambda>c. conclusion c = Some ''success'') runs),
           failed = length (filter (\<lambda>c. truthy (conclusion c)
                                      \<and> conclusion c \<noteq> Some ''success'') runs),
           pending = length (filter (\<lambda>c. run_status c \<noteq> ''completed'') runs),
           failedNames = map run_name (filter (\<lambda>c. truthy (conclusion c)
                                      \<and> conclusion c \<noteq> Some ''success'') runs)\<rparr>)"
  using assms by (simp add: fetchChecks_def Let_def)

lemma truthy_present: "x \<noteq> Some [] \<Longrightarrow> truthy x = (x \<noteq> None)"
  by (cases x) auto

text \<open>
  C4. For every list of check runs (GitHub's conclusions are \<^verbatim>\<open>null\<close> or one of its
  outcome names, never the empty string), the rollup's \<open>total\<close> is the length of the
  list, \<open>passed\<close> the number of runs whose conclusion is \<^verbatim>\<open>success\<close>, \<open>failed\<close> the
  number of runs with a present conclusion other than \<^verbatim>\<open>success\<close>, \<open>pending\<close> the
  number of runs whose status is not \<^verbatim>\<open>completed\<close>, whatever their conclusion; so a
  run that is not completed and carries a conclusion other than success is among the
  runs counted in \<open>failed\<close> and among those counted in \<open>pending\<close>.
\<close>

theorem fetchChecks_counts:
  assumes fetched: "github w (github_check_runs w rp sha) = Inr data"
      and runs: "runs = (case check_runs data of None \<Rightarrow> [] | Some rs \<Rightarrow> rs)"
      and wf: "\<forall>c\<in>set runs. conclusion c \<noteq> Some []"
  shows "\<exists>s. fetchChecks w rp sha = Inr s
     \<and> total s = length runs
     \<and> passed s = length (filter (\<lambda>c. conclusion c = Some ''success'') runs)
     \<and> failed s = length (filter (\<lambda>c. conclusion c \<noteq> None
                                      \<and> conclusion c \<noteq> Some ''success'') runs)
     \<and> pending s = length (filter (\<lambda>c. run_status c \<noteq> ''completed'') runs)
     \<and> (\<forall>c\<in>set runs. run_status c \<noteq> ''completed'' \<and> conclusion c \<noteq> None
                          \<and> conclusion c \<noteq> Some ''success''
          \<longrightarrow> c \<in> set (filter (\<lambda>c. conclusion c \<noteq> None
                                  \<and> conclusion c \<noteq> Some ''success'') runs)
            \<and> c \<in> set (filter (\<lambda>c. run_status c \<noteq> ''completed'') runs))"
proof -
  have same: "filter (\<lambda>c. truthy (conclusion c) \<and> conclusion c \<noteq> Some ''success'') runs
            = filter (\<lambda>c. conclusion c \<noteq> None \<and> conclusion c \<noteq> Some ''success'') runs"
    using wf by (intro filter_cong refl) (simp add: truthy_present)
  show ?thesis
    using fetchChecks_exact [OF fetched] runs same by (simp add: Let_def)
qed

theorem fetchChecks_counts_witness:
  "\<exists>s. fetchChecks (offline\<lparr>github_check_runs :=
            (\<lambda>r s. Resp (ok_response \<lparr>check_runs = Some three_runs\<rparr>))\<rparr>) ''acme/widgets'' ''abc''
        = Inr s \<and> total s = 3 \<and> passed s = 1 \<and> failed s = 1 \<and> pending s = 2"
proof -
  let ?w = "offline\<lparr>github_check_runs :=
            (\<lambda>r s. Resp (ok_response \<lparr>check_runs = Some three_runs\<rparr>))\<rparr>"
  have f: "github ?w (github_check_runs ?w ''acme/widgets'' ''abc'')
           = Inr \<lparr>check_runs = Some three_runs\<rparr>"
    by (simp add: github_def getGitHubToken_def offline_def ok_response_def)
  have wf: "\<forall>c\<in>set three_runs. conclusion c \<noteq> Some []"
    by (simp add: three_runs_def)
  from fetchChecks_counts [OF f _ wf] show ?thesis
    by (auto simp: three_runs_def numeral_2_eq_2 numeral_3_eq_3)
qed

subsection \<open>PRStatusAggregator\<close>

text \<open>
  \<^verbatim>\<open>getPRStatus\<close> returns a status exactly when the three fetches succeed, and then
  the status is assembled from the three documents.
\<close>

lemma getPRStatus_Inr:
  "getPRStatus w rp n = Inr st \<longleftrightarrow>
     (\<exists>pr rs cs. github w (github_pull w rp n) = Inr pr
        \<and> github w (github_reviews w rp n) = Inr rs
        \<and> fetchChecks w rp (head_sha pr) = Inr cs
        \<and> st = \<lparr>st_number = pr_number pr, st_title = pr_title pr,
                 st_author = pr_user_login pr, st_state = pr_state pr,
                 st_draft = pr_draft pr, st_mergeable = pr_mergeable pr,
                 mergeConflicts = (pr_mergeable pr = Some False
                                   \<or> pr_mergeable_state pr = ''dirty''),
                 st_additions = pr_additions pr, st_deletions = pr_deletions pr,
                 st_files = changed_files pr,
                 reviews = foldl classify \<lparr>approved = [], changesRequested = []\<rparr>
                             (Object_entries (reviewsByUser w rs)),
                 checks = cs\<rparr>)"
  by (auto simp: getPRStatus_def promise_all_def Let_def split: sum.splits)

text \<open>The loop over the entries pushes, in order, the users of each verdict.\<close>

lemma foldl_classify_approved:
  "approved (foldl classify acc es) =
     approved acc @ map fst (filter (\<lambda>p. verdict_state (snd p) = ''APPROVED'') es)"
  by (induction es arbitrary: acc) (auto simp: classify_def Let_def split: prod.splits)

lemma foldl_classify_changesRequested:
  "changesRequested (foldl classify acc es) =
     changesRequested acc
     @ map fst (filter (\<lambda>p. verdict_state (snd p) = ''CHANGES_REQUESTED'') es)"
  by (induction es arbitrary: acc) (auto simp: classify_def Let_def split: prod.splits)

text \<open>\<^verbatim>\<open>Object.entries\<close> reorders the properties and keeps the keys distinct.\<close>

lemma set_Object_entries: "set (Object_entries obj) = set obj"
  by (auto simp: Object_entries_def)

lemma distinct_Object_entries:
  assumes "distinct (map fst obj)"
  shows "distinct (map fst (Object_entries obj))"
proof -
  from assms have d: "distinct obj" and i: "inj_on fst (set obj)"
    by (simp_all add: distinct_map)
  have "inj_on fst (set (Object_entries obj))"
    using i by (simp add: set_Object_entries)
  moreover have "distinct (Object_entries obj)"
    using d by (auto simp: Object_entries_def)
  ultimately show ?thesis by (simp add: distinct_map)
qed

text \<open>A user is the key of at most one property of \<^verbatim>\<open>reviewsByUser\<close>.\<close>

lemma distinct_review_step:
  "distinct (map fst obj) \<Longrightarrow> distinct (map fst (review_step w obj r))"
  by (simp add: review_step_def Let_def distinct_update)

lemma distinct_foldl_review_step:
  "distinct (map fst obj) \<Longrightarrow> distinct (map fst (foldl (review_step w) obj rs))"
  by (induction rs arbitrary: obj) (simp_all add: distinct_review_step)

lemma distinct_reviewsByUser: "distinct (map fst (reviewsByUser w rs))"
  by (simp add: reviewsByUser_def distinct_foldl_review_step)

text \<open>In the example world the three fetches succeed.\<close>

lemmas eval_github =
  github_world_def offline_def ok_response_def github_def getGitHubToken_def

lemma github_world_pull [simp]:
  "github (github_world pr rs runs) (github_pull (github_world pr rs runs) rp n) = Inr pr"
  by (simp add: eval_github)

lemma github_world_reviews [simp]:
  "github (github_world pr rs runs) (github_reviews (github_world pr rs runs) rp n) = Inr rs"
  by (simp add: eval_github)

lemma github_world_check_runs [simp]:
  "github (github_world pr rs runs) (github_check_runs (github_world pr rs runs) rp sha)
   = Inr \<lparr>check_runs = Some runs\<rparr>"
  by (simp add: eval_github)

lemma github_world_succeeds:
  "\<exists>st. getPRStatus (github_world pr rs runs) rp n = Inr st"
  by (simp add: getPRStatus_Inr fetchChecks_exact Let_def)

text \<open>
  C3. For every PR document from which \<^verbatim>\<open>getPRStatus\<close> builds a status, the derived
  \<open>mergeConflicts\<close> flag is true if and only if \<^verbatim>\<open>mergeable\<close> is explicitly false
  or \<^verbatim>\<open>mergeable_state\<close> is \<^verbatim>\<open>"dirty"\<close>; every other combination, a \<^verbatim>\<open>null\<close>
  \<^verbatim>\<open>mergeable\<close> included, gives false.
\<close>

theorem mergeConflicts_iff:
  assumes "getPRStatus w rp n = Inr st"
  shows "\<exists>pr. github w (github_pull w rp n) = Inr pr
     \<and> mergeConflicts st = (pr_mergeable pr = Some False \<or> pr_mergeable_state pr = ''dirty'')"
  using assms by (auto simp: getPRStatus_Inr)

text \<open>
  The two examples of the specification: \<^verbatim>\<open>{mergeable: null, mergeable_state:
  "unknown"}\<close> gives false, \<^verbatim>\<open>{mergeable: false, mergeable_state: "clean"}\<close> true.
\<close>

theorem mergeConflicts_iff_witness:
  "(\<exists>st. getPRStatus (github_world demo_pr [] []) ''acme/widgets'' 42 = Inr st
         \<and> \<not> mergeConflicts st)
   \<and> (\<exists>st. getPRStatus (github_world
               (demo_pr\<lparr>pr_mergeable := Some False, pr_mergeable_state := ''clean''\<rparr>) [] [])
             ''acme/widgets'' 42 = Inr st
         \<and> mergeConflicts st)"
proof (intro conjI)
  obtain st where st: "getPRStatus (github_world demo_pr [] []) ''acme/widgets'' 42 = Inr st"
    using github_world_succeeds by blast
  from mergeConflicts_iff [OF st] have "\<not> mergeConflicts st"
    by (simp add: demo_pr_def)
  with st show "\<exists>st. getPRStatus (github_world demo_pr [] []) ''acme/widgets'' 42 = Inr st
         \<and> \<not> mergeConflicts st" by blast
next
  let ?pr = "demo_pr\<lparr>pr_mergeable := Some False, pr_mergeable_state := ''clean''\<rparr>"
  obtain st where st: "getPRStatus (github_world ?pr [] []) ''acme/widgets'' 42 = Inr st"
    using github_world_succeeds by blast
  from mergeConflicts_iff [OF st] have "mergeConflicts st"
    by (simp add: demo_pr_def)
  with st show "\<exists>st. getPRStatus (github_world ?pr [] []) ''acme/widgets'' 42 = Inr st
         \<and> mergeConflicts st" by blast
qed

subsection \<open>ReviewDeduplicator: the two lists\<close>

lemma approved_iff:
  assumes "getPRStatus w rp n = Inr st" "github w (github_reviews w rp n) = Inr rs"
  shows "u \<in> set (approved (reviews st)) \<longleftrightarrow>
         (\<exists>v. map_of (reviewsByUser w rs) u = Some v \<and> verdict_state v = ''APPROVED'')"
proof -
  have d: "distinct (map fst (reviewsByUser w rs))" by (rule distinct_reviewsByUser)
  from assms have "approved (reviews st) =
      map fst (filter (\<lambda>p. verdict_state (snd p) = ''APPROVED'')
                 (Object_entries (reviewsByUser w rs)))"
    by (auto simp: getPRStatus_Inr foldl_classify_approved)
  then show ?thesis
    using d by (force simp: set_Object_entries)
qed

lemma changesRequested_iff:
  assumes "getPRStatus w rp n = Inr st" "github w (github_reviews w rp n) = Inr rs"
  shows "u \<in> set (changesRequested (reviews st)) \<longleftrightarrow>
         (\<exists>v. map_of (reviewsByUser w rs) u = Some v
              \<and> verdict_state v = ''CHANGES_REQUESTED'')"
proof -
  have d: "distinct (map fst (reviewsByUser w rs))" by (rule distinct_reviewsByUser)
  from assms have "changesRequested (reviews st) =
      map fst (filter (\<lambda>p. verdict_state (snd p) = ''CHANGES_REQUESTED'')
                 (Object_entries (reviewsByUser w rs)))"
    by (auto simp: getPRStatus_Inr foldl_classify_changesRequested)
  then show ?thesis
    using d by (force simp: set_Object_entries)
qed

text \<open>
  C9. In every status that \<^verbatim>\<open>getPRStatus\<close> produces, from any list of reviews, no
  reviewer is in both \<open>approved\<close> and \<open>changesRequested\<close>: a reviewer is in \<open>approved\<close>
  exactly when the state stored for them is \<^verbatim>\<open>APPROVED\<close>, in \<open>changesRequested\<close>
  exactly when it is \<^verbatim>\<open>CHANGES_REQUESTED\<close>, and a reviewer with any other stored state
  is in neither list.
\<close>

theorem reviewer_in_one_list:
  assumes "getPRStatus w rp n = Inr st"
  shows "\<exists>rs. github w (github_reviews w rp n) = Inr rs
     \<and> set (approved (reviews st)) \<inter> set (changesRequested (reviews st)) = {}
     \<and> (\<forall>u. u \<in> set (approved (reviews st)) \<longleftrightarrow>
              (\<exists>v. map_of (reviewsByUser w rs) u = Some v
                   \<and> verdict_state v = ''APPROVED''))
     \<and> (\<forall>u. u \<in> set (changesRequested (reviews st)) \<longleftrightarrow>
              (\<exists>v. map_of (reviewsByUser w rs) u = Some v
                   \<and> verdict_state v = ''CHANGES_REQUESTED''))
     \<and> (\<forall>u v. map_of (reviewsByUser w rs) u = Some v
              \<and> verdict_state v \<noteq> ''APPROVED'' \<and> verdict_state v \<noteq> ''CHANGES_REQUESTED''
           \<longrightarrow> u \<notin> set (approved (reviews st))
               \<and> u \<notin> set (changesRequested (reviews st)))"
proof -
  from assms obtain rs where rs: "github w (github_reviews w rp n) = Inr rs"
    by (auto simp: getPRStatus_Inr)
  note a = approved_iff [OF assms rs] and c = changesRequested_iff [OF assms rs]
  have "set (approved (reviews st)) \<inter> set (changesRequested (reviews st)) = {}"
    by (auto simp: a c)
  moreover have "\<forall>u v. map_of (reviewsByUser w rs) u = Some v
              \<and> verdict_state v \<noteq> ''APPROVED'' \<and> verdict_state v \<noteq> ''CHANGES_REQUESTED''
           \<longrightarrow> u \<notin> set (approved (reviews st))
               \<and> u \<notin> set (changesRequested (reviews st))"
    by (auto simp: a c)
  ultimately show ?thesis using rs a c by blast
qed

lemmas eval_reviews =
  reviewsByUser_def review_step_def get_property_def Object_prototype_keys_def
  Object_entries_def is_array_index_def classify_def iso_dates_def Let_def

lemma two_reviews_latest:
  "reviewsByUser offline two_reviews =
     [(''a'', \<lparr>verdict_state = ''CHANGES_REQUESTED'', verdict_date = ''2024-01-02T00:00:00Z''\<rparr>)]"
  by (simp add: two_reviews_def offline_def eval_reviews)

text \<open>
  The example of the specification: an approval followed a day later by a request for
  changes, both by \<^verbatim>\<open>a\<close>.
\<close>

theorem reviewer_in_one_list_witness:
  "\<exists>st. getPRStatus (github_world demo_pr two_reviews []) ''acme/widgets'' 42 = Inr st
     \<and> set (approved (reviews st)) \<inter> set (changesRequested (reviews st)) = {}
     \<and> ''a'' \<notin> set (approved (reviews st))
     \<and> ''a'' \<in> set (changesRequested (reviews st))"
proof -
  let ?w = "github_world demo_pr two_reviews []"
  obtain st where st: "getPRStatus ?w ''acme/widgets'' 42 = Inr st"
    using github_world_succeeds by blast
  have by_user: "reviewsByUser ?w two_reviews =
     [(''a'', \<lparr>verdict_state = ''CHANGES_REQUESTED'', verdict_date = ''2024-01-02T00:00:00Z''\<rparr>)]"
    by (simp add: two_reviews_def github_world_def offline_def eval_reviews)
  from reviewer_in_one_list [OF st] by_user
  have "set (approved (reviews st)) \<inter> set (changesRequested (reviews st)) = {}
     \<and> ''a'' \<notin> set (approved (reviews st))
     \<and> ''a'' \<in> set (changesRequested (reviews st))"
    by simp
  with st show ?thesis by blast
qed

subsection \<open>ReviewDeduplicator: the latest review of each user\<close>

text \<open>How one iteration of the loop changes the entry of a user.\<close>

lemma review_step_other:
  "user_login r \<noteq> u \<Longrightarrow> map_of (review_step w obj r) u = map_of obj u"
  by (simp add: review_step_def Let_def update_conv')

text \<open>
  A key that \<^verbatim>\<open>Object.prototype\<close> defines never becomes an own property: the read
  \<^verbatim>\<open>reviewsByUser[user]\<close> finds the inherited value, and the comparison with its
  missing date fails.
\<close>

lemma review_step_inherited:
  "k \<in> set Object_prototype_keys \<Longrightarrow> map_of obj k = None
   \<Longrightarrow> map_of (review_step w obj r) k = None"
  by (cases "user_login r = k")
     (simp_all add: review_step_def Let_def update_conv' get_property_def)

lemma foldl_review_step_inherited:
  "k \<in> set Object_prototype_keys \<Longrightarrow> map_of obj k = None
   \<Longrightarrow> map_of (foldl (review_step w) obj rs) k = None"
  by (induction rs arbitrary: obj) (simp_all add: review_step_inherited)

lemma reviewsByUser_inherited:
  "k \<in> set Object_prototype_keys \<Longrightarrow> map_of (reviewsByUser w rs) k = None"
  by (simp add: reviewsByUser_def foldl_review_step_inherited)

text \<open>Any other user gets an entry with their first review, replaced by a later one.\<close>

lemma review_step_new:
  "user_login r = u \<Longrightarrow> u \<notin> set Object_prototype_keys \<Longrightarrow> map_of obj u = None
   \<Longrightarrow> map_of (review_step w obj r) u = Some (verdict_of r)"
  by (simp add: review_step_def Let_def update_conv' get_property_def verdict_of_def)

lemma review_step_existing:
  "user_login r = u \<Longrightarrow> map_of obj u = Some (verdict_of r0)
   \<Longrightarrow> Date_parse w (submitted_at r) \<noteq> None \<Longrightarrow> Date_parse w (submitted_at r0) \<noteq> None
   \<Longrightarrow> map_of (review_step w obj r) u =
       Some (if time_of w r0 < time_of w r then verdict_of r else verdict_of r0)"
  by (auto simp: review_step_def Let_def update_conv' get_property_def verdict_of_def time_of_def)

lemma reviewsByUser_snoc:
  "reviewsByUser w (rs @ [r]) = review_step w (reviewsByUser w rs) r"
  by (simp add: reviewsByUser_def)

text \<open>
  For every list of reviews with valid timestamps and every user whose login is not a
  property name of \<^verbatim>\<open>Object.prototype\<close>: without a review of the user the mapping has
  no entry for them; otherwise the entry holds the state and timestamp of one review
  \<open>r\<close> of theirs that is strictly later than all their reviews before it in the list
  and not earlier than any after it (the first one with the latest timestamp).
\<close>

lemma reviewsByUser_latest:
  assumes valid: "\<forall>r\<in>set rs. Date_parse w (submitted_at r) \<noteq> None"
      and own: "u \<notin> set Object_prototype_keys"
  shows "if u \<in> user_login ` set rs
         then \<exists>pre r post. rs = pre @ r # post \<and> user_login r = u
                \<and> (\<forall>x\<in>set pre. user_login x = u \<longrightarrow> time_of w x < time_of w r)
                \<and> (\<forall>x\<in>set post. user_login x = u \<longrightarrow> time_of w x \<le> time_of w r)
                \<and> map_of (reviewsByUser w rs) u = Some (verdict_of r)
         else map_of (reviewsByUser w rs) u = None"
  using valid
proof (induction rs rule: rev_induct)
  case Nil
  show ?case by (simp add: reviewsByUser_def)
next
  case (snoc r' xs)
  let ?obj = "reviewsByUser w xs"
  from snoc.prems have valid_xs: "\<forall>r\<in>set xs. Date_parse w (submitted_at r) \<noteq> None"
    and valid_r': "Date_parse w (submitted_at r') \<noteq> None" by simp_all
  note IH = snoc.IH [OF valid_xs]
  show ?case
  proof (cases "u \<in> user_login ` set xs")
    case False
    with IH have none: "map_of ?obj u = None" by simp
    show ?thesis
    proof (cases "user_login r' = u")
      case True
      have "map_of (reviewsByUser w (xs @ [r'])) u = Some (verdict_of r')"
        using review_step_new [OF True own none] by (simp add: reviewsByUser_snoc)
      moreover have "\<forall>x\<in>set xs. user_login x = u \<longrightarrow> time_of w x < time_of w r'"
        using False by auto
      ultimately have "\<exists>pre r post. xs @ [r'] = pre @ r # post \<and> user_login r = u
                \<and> (\<forall>x\<in>set pre. user_login x = u \<longrightarrow> time_of w x < time_of w r)
                \<and> (\<forall>x\<in>set post. user_login x = u \<longrightarrow> time_of w x \<le> time_of w r)
                \<and> map_of (reviewsByUser w (xs @ [r'])) u = Some (verdict_of r)"
        using True by (intro exI [of _ xs] exI [of _ r'] exI [of _ "[]"]) simp
      then show ?thesis using True by simp
    next
      case other: False
      then have "map_of (reviewsByUser w (xs @ [r'])) u = None"
        using none by (simp add: reviewsByUser_snoc review_step_other)
      then show ?thesis using False other by auto
    qed
  next
    case True
    with IH obtain pre r post where xs: "xs = pre @ r # post" and r: "user_login r = u"
      and before: "\<forall>x\<in>set pre. user_login x = u \<longrightarrow> time_of w x < time_of w r"
      and after: "\<forall>x\<in>set post. user_login x = u \<longrightarrow> time_of w x \<le> time_of w r"
      and entry: "map_of ?obj u = Some (verdict_of r)"
      by auto
    have valid_r: "Date_parse w (submitted_at r) \<noteq> None"
      using valid_xs xs by simp
    have "\<exists>pre r post. xs @ [r'] = pre @ r # post \<and> user_login r = u
                \<and> (\<forall>x\<in>set pre. user_login x = u \<longrightarrow> time_of w x < time_of w r)
                \<and> (\<forall>x\<in>set post. user_login x = u \<longrightarrow> time_of w x \<le> time_of w r)
                \<and> map_of (reviewsByUser w (xs @ [r'])) u = Some (verdict_of r)"
    proof (cases "user_login r' = u \<and> time_of w r < time_of w r'")
      case True
      then have login: "user_login r' = u" by simp
      have "map_of (reviewsByUser w (xs @ [r'])) u = Some (verdict_of r')"
        using review_step_existing [OF login entry valid_r' valid_r] True
        by (simp add: reviewsByUser_snoc)
      moreover have "\<forall>x\<in>set xs. user_login x = u \<longrightarrow> time_of w x < time_of w r'"
        using True before after xs by fastforce
      ultimately show ?thesis
        using True by (intro exI [of _ xs] exI [of _ r'] exI [of _ "[]"]) simp
    next
      case False
      have "map_of (reviewsByUser w (xs @ [r'])) u = Some (verdict_of r)"
      proof (cases "user_login r' = u")
        case True
        with False have "\<not> time_of w r < time_of w r'" by simp
        then show ?thesis
          using review_step_existing [OF True entry valid_r' valid_r]
          by (simp add: reviewsByUser_snoc)
      next
        case False
        then show ?thesis
          using entry by (simp add: reviewsByUser_snoc review_step_other)
      qed
      moreover have "\<forall>x\<in>set (post @ [r']). user_login x = u \<longrightarrow> time_of w x \<le> time_of w r"
        using after False by auto
      ultimately show ?thesis
        using r before xs
        by (intro exI [of _ pre] exI [of _ r] exI [of _ "post @ [r']"]) simp
    qed
    then show ?thesis using True by simp
  qed
qed

text \<open>
  C1 (each distinct reviewer has exactly one entry, that of their latest review) does
  not hold for a reviewer whose login is \<^verbatim>\<open>constructor\<close>: the single review of that
  user leaves the mapping empty, and the approval is in neither list of the status.
\<close>

theorem reviewer_constructor_dropped:
  "reviewsByUser (github_world demo_pr [constructor_review] []) [constructor_review] = []
   \<and> (\<exists>st. getPRStatus (github_world demo_pr [constructor_review] []) ''acme/widgets'' 42
            = Inr st
          \<and> approved (reviews st) = [] \<and> changesRequested (reviews st) = [])"
proof -
  let ?w = "github_world demo_pr [constructor_review] []"
  have none: "reviewsByUser ?w [constructor_review] = []"
    by (simp add: constructor_review_def eval_reviews)
  obtain st where st: "getPRStatus ?w ''acme/widgets'' 42 = Inr st"
    using github_world_succeeds by blast
  then have "reviews st = \<lparr>approved = [], changesRequested = []\<rparr>"
    by (auto simp: getPRStatus_Inr none Object_entries_def)
  with none st show ?thesis by simp
qed

subsection \<open>LinkedPRResolver\<close>

text \<open>The match at a fixed start, against the shape of a pull-request URL.\<close>

lemma strip_prefix_Some: "strip_prefix p s = Some t \<longleftrightarrow> s = p @ t"
  by (induction p s rule: strip_prefix.induct) auto

lemma strip_prefix_append [simp]: "strip_prefix p (p @ t) = Some t"
  by (simp add: strip_prefix_Some)

lemma takeWhile_segment:
  "c \<notin> set seg \<Longrightarrow> takeWhile (\<lambda>x. x \<noteq> c) (seg @ c # t) = seg"
  by (induction seg) auto

lemma dropWhile_segment:
  "c \<notin> set seg \<Longrightarrow> dropWhile (\<lambda>x. x \<noteq> c) (seg @ c # t) = c # t"
  by (induction seg) auto

lemma takeWhile_all_digits:
  assumes "list_all is_digit ds" and "rest = [] \<or> \<not> is_digit (hd rest)"
  shows "takeWhile is_digit (ds @ rest) = ds"
proof -
  have "takeWhile is_digit rest = []"
    using assms(2) by (cases rest) auto
  then show ?thesis
    using assms(1) by (simp add: takeWhile_append2 list_all_iff)
qed

lemma match_here_complete:
  assumes "owner \<noteq> []" "nm \<noteq> []" "ds \<noteq> []" "CHR ''/'' \<notin> set owner" "CHR ''/'' \<notin> set nm"
      and "list_all is_digit ds"
  shows "match_here (''github.com/'' @ owner @ ''/'' @ nm @ ''/pull/'' @ ds @ rest)
         = Some (owner @ ''/'' @ nm, ds @ takeWhile is_digit rest)"
proof -
  have d: "takeWhile is_digit (ds @ rest) = ds @ takeWhile is_digit rest"
    using assms(6) by (simp add: takeWhile_append2 list_all_iff)
  have s1: "strip_prefix ''github.com/'' (''github.com/'' @ owner @ ''/'' @ nm @ ''/pull/'' @ ds @ rest)
            = Some (owner @ CHR ''/'' # nm @ CHR ''/'' # ''pull/'' @ ds @ rest)"
    by (simp add: strip_prefix_Some)
  have s3: "strip_prefix ''/pull/'' (CHR ''/'' # ''pull/'' @ ds @ rest) = Some (ds @ rest)"
    by (simp add: strip_prefix_Some)
  show ?thesis
    unfolding match_here_def s1
    using assms(1-5) d s3
    by (simp add: takeWhile_segment dropWhile_segment Let_def)
qed

lemma match_here_sound:
  assumes "match_here s = Some m"
  shows "\<exists>owner nm rest. s = ''github.com/'' @ owner @ ''/'' @ nm @ ''/pull/'' @ snd m @ rest
           \<and> fst m = owner @ ''/'' @ nm
           \<and> owner \<noteq> [] \<and> nm \<noteq> [] \<and> snd m \<noteq> []
           \<and> CHR ''/'' \<notin> set owner \<and> CHR ''/'' \<notin> set nm \<and> list_all is_digit (snd m)
           \<and> (rest = [] \<or> \<not> is_digit (hd rest))"
proof -
  from assms obtain s1 s2 s3 where
    s1: "s = ''github.com/'' @ s1" and
    o: "takeWhile (\<lambda>c. c \<noteq> CHR ''/'') s1 \<noteq> []" and
    s2: "dropWhile (\<lambda>c. c \<noteq> CHR ''/'') s1 = ''/'' @ s2" and
    n: "takeWhile (\<lambda>c. c \<noteq> CHR ''/'') s2 \<noteq> []" and
    s3: "dropWhile (\<lambda>c. c \<noteq> CHR ''/'') s2 = ''/pull/'' @ s3" and
    d: "takeWhile is_digit s3 \<noteq> []" and
    m: "m = (takeWhile (\<lambda>c. c \<noteq> CHR ''/'') s1 @ ''/'' @ takeWhile (\<lambda>c. c \<noteq> CHR ''/'') s2,
             takeWhile is_digit s3)"
    unfolding match_here_def
    by (auto simp: Let_def strip_prefix_Some split: option.splits if_splits)
  let ?owner = "takeWhile (\<lambda>c. c \<noteq> CHR ''/'') s1"
  let ?nm = "takeWhile (\<lambda>c. c \<noteq> CHR ''/'') s2"
  let ?rest = "dropWhile is_digit s3"
  have "s1 = ?owner @ ''/'' @ s2"
    using takeWhile_dropWhile_id [of "\<lambda>c. c \<noteq> CHR ''/''" s1] s2 by simp
  moreover have "s2 = ?nm @ ''/pull/'' @ s3"
    using takeWhile_dropWhile_id [of "\<lambda>c. c \<noteq> CHR ''/''" s2] s3 by simp
  moreover have "s3 = takeWhile is_digit s3 @ ?rest" by simp
  ultimately have whole: "s = ''github.com/'' @ ?owner @ ''/'' @ ?nm @ ''/pull/''
                       @ snd m @ ?rest"
    using s1 m by simp
  have slash: "CHR ''/'' \<notin> set ?owner" "CHR ''/'' \<notin> set ?nm"
    by (auto dest: set_takeWhileD)
  have digits: "list_all is_digit (snd m)"
    using m by (auto simp: list_all_iff dest: set_takeWhileD)
  have all_digits: "?rest = [] \<or> \<not> is_digit (hd ?rest)"
    using hd_dropWhile [of is_digit s3] by blast
  have "fst m = ?owner @ ''/'' @ ?nm" "snd m \<noteq> []"
    using m d by simp_all
  with whole slash digits o n all_digits show ?thesis
    by (intro exI [of _ ?owner] exI [of _ ?nm] exI [of _ ?rest]) simp
qed

text \<open>The search returns the match at the first start that has one.\<close>

lemma regex_match_leftmost:
  "regex_match u = Some m \<Longrightarrow>
     \<exists>i\<le>length u. match_here (drop i u) = Some m \<and> (\<forall>j<i. match_here (drop j u) = None)"
proof (induction u)
  case Nil
  then have "0 \<le> length ([]::string) \<and> match_here (drop 0 []) = Some m
             \<and> (\<forall>j<0. match_here (drop j []) = None)"
    by simp
  then show ?case by blast
next
  case (Cons c cs)
  show ?case
  proof (cases "match_here (c # cs)")
    case (Some m')
    with Cons.prems have "m' = m" by simp
    with Some have "0 \<le> length (c # cs) \<and> match_here (drop 0 (c # cs)) = Some m
             \<and> (\<forall>j<0. match_here (drop j (c # cs)) = None)"
      by simp
    then show ?thesis by blast
  next
    case None
    with Cons.prems have "regex_match cs = Some m" by simp
    from Cons.IH [OF this] obtain i where i: "i \<le> length cs"
      "match_here (drop i cs) = Some m" "\<forall>j<i. match_here (drop j cs) = None"
      by blast
    have "\<forall>j<Suc i. match_here (drop j (c # cs)) = None"
    proof (intro allI impI)
      fix j assume "j < Suc i"
      then show "match_here (drop j (c # cs)) = None"
        using None i(3) by (cases j) simp_all
    qed
    with i have "Suc i \<le> length (c # cs) \<and> match_here (drop (Suc i) (c # cs)) = Some m
             \<and> (\<forall>j<Suc i. match_here (drop j (c # cs)) = None)"
      by simp
    then show ?thesis by blast
  qed
qed

lemma regex_match_first:
  "i \<le> length u \<Longrightarrow> match_here (drop i u) = Some m
   \<Longrightarrow> \<forall>j<i. match_here (drop j u) = None \<Longrightarrow> regex_match u = Some m"
proof (induction u arbitrary: i)
  case Nil
  then show ?case by simp
next
  case (Cons c cs)
  show ?case
  proof (cases i)
    case 0
    with Cons.prems show ?thesis by simp
  next
    case (Suc i')
    with Cons.prems have none: "match_here (c # cs) = None"
      by (metis drop0 zero_less_Suc)
    have "i' \<le> length cs" "match_here (drop i' cs) = Some m"
      using Cons.prems Suc by simp_all
    moreover have "\<forall>j<i'. match_here (drop j cs) = None"
    proof (intro allI impI)
      fix j assume "j < i'"
      then have "Suc j < i" using Suc by simp
      with Cons.prems(3) have "match_here (drop (Suc j) (c # cs)) = None" by blast
      then show "match_here (drop j cs) = None" by simp
    qed
    ultimately have "regex_match cs = Some m" by (rule Cons.IH)
    with none show ?thesis by simp
  qed
qed

text \<open>The search against the captures of the pattern.\<close>

lemma pr_url_at_match_here:
  assumes "pr_url_at u pre owner nm ds rest"
  shows "drop (length pre) u = ''github.com/'' @ owner @ ''/'' @ nm @ ''/pull/'' @ ds @ rest"
    and "match_here (drop (length pre) u) = Some (owner @ ''/'' @ nm, ds @ takeWhile is_digit rest)"
proof -
  from assms have u: "u = pre @ (''github.com/'' @ owner @ ''/'' @ nm @ ''/pull/'' @ ds @ rest)"
    and parts: "owner \<noteq> []" "nm \<noteq> []" "ds \<noteq> []" "CHR ''/'' \<notin> set owner"
      "CHR ''/'' \<notin> set nm" "list_all is_digit ds"
    unfolding pr_url_at_def by simp_all
  from u show d: "drop (length pre) u
      = ''github.com/'' @ owner @ ''/'' @ nm @ ''/pull/'' @ ds @ rest"
    by simp
  show "match_here (drop (length pre) u)
      = Some (owner @ ''/'' @ nm, ds @ takeWhile is_digit rest)"
    unfolding d by (rule match_here_complete [OF parts])
qed

lemma match_here_pr_url_at:
  assumes "match_here (drop i u) = Some m" and "i \<le> length u"
  shows "\<exists>owner nm rest. pr_url_at u (take i u) owner nm (snd m) rest
           \<and> fst m = owner @ ''/'' @ nm \<and> (rest = [] \<or> \<not> is_digit (hd rest))"
proof -
  from match_here_sound [OF assms(1)] obtain owner nm rest where
    d: "drop i u = ''github.com/'' @ owner @ ''/'' @ nm @ ''/pull/'' @ snd m @ rest"
    and rest: "fst m = owner @ ''/'' @ nm" "owner \<noteq> []" "nm \<noteq> []" "snd m \<noteq> []"
      "CHR ''/'' \<notin> set owner" "CHR ''/'' \<notin> set nm" "list_all is_digit (snd m)"
      "rest = [] \<or> \<not> is_digit (hd rest)"
    by blast
  have "u = take i u @ drop i u" by simp
  with d have "u = take i u @ ''github.com/'' @ owner @ ''/'' @ nm @ ''/pull/'' @ snd m @ rest"
    by simp
  with rest have "pr_url_at u (take i u) owner nm (snd m) rest"
    unfolding pr_url_at_def by blast
  with rest show ?thesis by blast
qed

lemma captures_regex_match:
  assumes "captures u owner nm ds"
  shows "regex_match u = Some (owner @ ''/'' @ nm, ds)"
proof -
  from assms obtain pre rest where at: "pr_url_at u pre owner nm ds rest"
    and all_digits: "rest = [] \<or> \<not> is_digit (hd rest)"
    and leftmost: "\<And>pre' owner' nm' ds' rest'.
          pr_url_at u pre' owner' nm' ds' rest' \<Longrightarrow> length pre \<le> length pre'"
    unfolding captures_def by blast
  from at have len: "length pre \<le> length u"
    unfolding pr_url_at_def by simp
  have "takeWhile is_digit rest = []"
    using all_digits by (cases rest) auto
  with pr_url_at_match_here(2) [OF at]
  have here: "match_here (drop (length pre) u) = Some (owner @ ''/'' @ nm, ds)"
    by simp
  have "\<forall>j<length pre. match_here (drop j u) = None"
  proof (intro allI impI)
    fix j assume j: "j < length pre"
    show "match_here (drop j u) = None"
    proof (rule ccontr)
      assume "match_here (drop j u) \<noteq> None"
      then obtain m' where "match_here (drop j u) = Some m'" by blast
      from match_here_pr_url_at [OF this] j len
      obtain owner' nm' rest' where "pr_url_at u (take j u) owner' nm' (snd m') rest'"
        by auto
      from leftmost [OF this] j len show False by simp
    qed
  qed
  with len here show ?thesis by (rule regex_match_first)
qed

lemma regex_match_captures:
  assumes "regex_match u = Some m"
  shows "\<exists>owner nm. fst m = owner @ ''/'' @ nm \<and> captures u owner nm (snd m)"
proof -
  from regex_match_leftmost [OF assms] obtain i where i: "i \<le> length u"
    and here: "match_here (drop i u) = Some m"
    and first: "\<forall>j<i. match_here (drop j u) = None"
    by blast
  from match_here_pr_url_at [OF here i] obtain owner nm rest where
    at: "pr_url_at u (take i u) owner nm (snd m) rest" and m: "fst m = owner @ ''/'' @ nm"
    and all_digits: "rest = [] \<or> \<not> is_digit (hd rest)"
    by blast
  have "length (take i u) \<le> length pre'" if "pr_url_at u pre' owner' nm' ds' rest'"
    for pre' owner' nm' ds' rest'
  proof (rule ccontr)
    assume "\<not> length (take i u) \<le> length pre'"
    with i have "length pre' < i" by simp
    with first have "match_here (drop (length pre') u) = None" by blast
    with pr_url_at_match_here(2) [OF that] show False by simp
  qed
  with at all_digits have "captures u owner nm (snd m)"
    unfolding captures_def by blast
  with m show ?thesis by blast
qed

lemma captures_unique:
  assumes "captures u owner nm ds" and "captures u owner' nm' ds'"
  shows "owner = owner' \<and> nm = nm' \<and> ds = ds'"
proof -
  from assms [THEN captures_regex_match]
  have eq: "owner @ ''/'' @ nm = owner' @ ''/'' @ nm'" and ds: "ds = ds'"
    by simp_all
  from assms have slash: "CHR ''/'' \<notin> set owner" "CHR ''/'' \<notin> set owner'"
    unfolding captures_def pr_url_at_def by blast+
  have "takeWhile (\<lambda>x. x \<noteq> CHR ''/'') (owner @ CHR ''/'' # nm) = owner"
       "takeWhile (\<lambda>x. x \<noteq> CHR ''/'') (owner' @ CHR ''/'' # nm') = owner'"
    using slash by (simp_all add: takeWhile_segment)
  with eq have "owner = owner'" by simp
  with eq ds show ?thesis by simp
qed

lemma captures_iff_shape:
  "(\<exists>owner nm ds. captures u owner nm ds)
   = (\<exists>pre owner nm ds rest. pr_url_at u pre owner nm ds rest)"
proof
  assume "\<exists>owner nm ds. captures u owner nm ds"
  then show "\<exists>pre owner nm ds rest. pr_url_at u pre owner nm ds rest"
    unfolding captures_def by blast
next
  assume "\<exists>pre owner nm ds rest. pr_url_at u pre owner nm ds rest"
  then obtain pre owner nm ds rest where at: "pr_url_at u pre owner nm ds rest" by blast
  have "regex_match u \<noteq> None"
  proof
    assume none: "regex_match u = None"
    have "match_here (drop j u) = None" if "j \<le> length u" for j
    proof (rule ccontr)
      assume "match_here (drop j u) \<noteq> None"
      then obtain m where m: "match_here (drop j u) = Some m" by blast
      define k where "k = (LEAST k. match_here (drop k u) \<noteq> None)"
      have k: "match_here (drop k u) \<noteq> None"
        unfolding k_def using m by (metis (mono_tags, lifting) LeastI option.distinct(1))
      have least: "\<forall>j'<k. match_here (drop j' u) = None"
        unfolding k_def using not_less_Least by blast
      have "k \<le> j" unfolding k_def using m by (simp add: Least_le)
      with that have "k \<le> length u" by simp
      from k obtain m' where "match_here (drop k u) = Some m'" by blast
      from regex_match_first [OF \<open>k \<le> length u\<close> this least] none show False by simp
    qed
    moreover from at have "length pre \<le> length u" unfolding pr_url_at_def by simp
    ultimately have "match_here (drop (length pre) u) = None" by blast
    with pr_url_at_match_here(2) [OF at] show False by simp
  qed
  then obtain m where "regex_match u = Some m" by blast
  from regex_match_captures [OF this] show "\<exists>owner nm ds. captures u owner nm ds" by blast
qed

text \<open>
  The value of a string of digits is its decimal value, and the table of the letters
  is the lowercasing of ASCII.
\<close>

lemma digit_val_table: "map digit_val digit_chars = [0..<10]"
proof -
  have "[0..<10] = [0, 1, 2, 3, 4, 5, 6, 7, 8, 9::nat]" by code_simp
  then show ?thesis by (simp add: digit_val_def digit_chars_def)
qed

lemma digit_code_table: "map (\<lambda>c. char_code c - 48) digit_chars = [0..<10]"
proof -
  have "[0..<10] = [0, 1, 2, 3, 4, 5, 6, 7, 8, 9::nat]" by code_simp
  then show ?thesis by (simp add: char_code_def digit_chars_def)
qed

lemma digit_val_code:
  assumes "is_digit c"
  shows "digit_val c = char_code c - 48"
proof -
  from assms have c: "c \<in> set digit_chars" by (simp add: is_digit_def)
  have "map digit_val digit_chars = map (\<lambda>c. char_code c - 48) digit_chars"
    by (simp only: digit_val_table digit_code_table)
  then have "\<forall>x\<in>set digit_chars. digit_val x = char_code x - 48"
    by (simp only: map_eq_conv)
  with c show ?thesis by blast
qed

lemma decimal_value_snoc:
  "decimal_value (ds @ [c]) = 10 * decimal_value ds + (char_code c - 48)"
proof -
  have "(\<Sum>i<length ds. (char_code ((ds @ [c]) ! i) - 48) * 10 ^ (Suc (length ds) - Suc i))
      = (\<Sum>i<length ds. 10 * ((char_code (ds ! i) - 48) * 10 ^ (length ds - Suc i)))"
  proof (rule sum.cong)
    fix i assume "i \<in> {..<length ds}"
    then have i: "i < length ds" by simp
    then have "Suc (length ds) - Suc i = Suc (length ds - Suc i)" by simp
    with i show "(char_code ((ds @ [c]) ! i) - 48) * 10 ^ (Suc (length ds) - Suc i)
               = 10 * ((char_code (ds ! i) - 48) * 10 ^ (length ds - Suc i))"
      by (simp add: nth_append)
  qed simp
  then show ?thesis
    by (simp add: decimal_value_def sum_distrib_left)
qed

lemma mathInt_snoc: "mathInt (ds @ [c]) = 10 * mathInt ds + digit_val c"
  by (simp add: mathInt_def)

lemma mathInt_decimal_value:
  "list_all is_digit ds \<Longrightarrow> mathInt ds = decimal_value ds"
proof (induction ds rule: rev_induct)
  case Nil
  show ?case by (simp add: mathInt_def decimal_value_def)
next
  case (snoc c ds)
  then have "mathInt ds = decimal_value ds" and "is_digit c" by simp_all
  then show ?case
    by (simp only: mathInt_snoc decimal_value_snoc digit_val_code)
qed

text \<open>Beyond the safe integers the parsed number is marked approximate.\<close>

lemma parseInt_beyond_safe:
  "parseInt ''9007199254740993'' = Approximately 9007199254740993"
  by (simp add: parseInt_def mathInt_def digit_val_def digit_chars_def)

lemma in_code_range:
  assumes "map char_code cs = [a..<b]"
  shows "c \<in> set cs \<longleftrightarrow> a \<le> char_code c \<and> char_code c < b"
proof -
  have "c \<in> set cs \<longleftrightarrow> char_code c \<in> char_code ` set cs"
    by (auto simp: char_code_def)
  also have "char_code ` set cs = set (map char_code cs)" by simp
  also have "\<dots> = {a..<b}" by (simp only: assms set_upt)
  finally show ?thesis by simp
qed

lemma upper_codes: "map char_code ''ABCDEFGHIJKLMNOPQRSTUVWXYZ'' = [65..<91]"
  by code_simp

lemma ascii_lower_letters:
  "map ascii_lower ''ABCDEFGHIJKLMNOPQRSTUVWXYZ'' = ''abcdefghijklmnopqrstuvwxyz''"
  by code_simp

lemma lower_char_letters:
  "map lower_char ''ABCDEFGHIJKLMNOPQRSTUVWXYZ'' = ''abcdefghijklmnopqrstuvwxyz''"
  by (simp add: lower_char_def)

lemma lower_char_ascii_lower: "lower_char c = ascii_lower c"
proof (cases "c \<in> set ''ABCDEFGHIJKLMNOPQRSTUVWXYZ''")
  case True
  have "map lower_char ''ABCDEFGHIJKLMNOPQRSTUVWXYZ''
        = map ascii_lower ''ABCDEFGHIJKLMNOPQRSTUVWXYZ''"
    by (simp only: ascii_lower_letters lower_char_letters)
  then have "\<forall>x\<in>set ''ABCDEFGHIJKLMNOPQRSTUVWXYZ''. lower_char x = ascii_lower x"
    by (simp only: map_eq_conv)
  with True show ?thesis by blast
next
  case False
  have "c \<in> set ''ABCDEFGHIJKLMNOPQRSTUVWXYZ''
        \<longleftrightarrow> 65 \<le> char_code c \<and> char_code c < 91"
    by (rule in_code_range [OF upper_codes])
  with False have "\<not> (65 \<le> char_code c \<and> char_code c < 91)" by blast
  then have "\<not> (65 \<le> char_code c \<and> char_code c \<le> 90)" by linarith
  then have "ascii_lower c = c" by (auto simp: ascii_lower_def)
  moreover
  have "map_of (zip ''ABCDEFGHIJKLMNOPQRSTUVWXYZ'' ''abcdefghijklmnopqrstuvwxyz'') c = None"
    using False by (subst map_of_zip_is_None) simp_all
  then have "lower_char c = c"
    by (simp only: lower_char_def option.case)
  ultimately show ?thesis by simp
qed

lemma toLowerCase_ascii:
  "list_all is_ascii s \<Longrightarrow> toLowerCase w s = map ascii_lower s"
  by (simp add: toLowerCase_def lower_char_ascii_lower)

text \<open>The two nested loops emit, reference by reference, what each reference yields.\<close>

lemma foldl_push_pr: "foldl (push_pr w) acc rs = acc @ concat (map (push_pr w []) rs)"
proof (induction rs arbitrary: acc)
  case Nil
  show ?case by simp
next
  case (Cons r rs)
  have "push_pr w acc r = acc @ push_pr w [] r"
    by (simp add: push_pr_def split: option.splits)
  with Cons show ?case by simp
qed

lemma foldl_groups:
  "foldl (\<lambda>prs d. foldl (push_pr w) prs (f d)) acc ds
   = acc @ concat (map (push_pr w []) (concat (map f ds)))"
  by (induction ds arbitrary: acc) (simp_all add: foldl_push_pr)

lemma collect_prs_references:
  "collect_prs w data = concat (map (push_pr w []) (references data))"
  by (simp add: collect_prs_def references_def foldl_groups)

text \<open>
  What one reference yields. The fallback \<^verbatim>\<open>|| 'unknown'\<close> applies to an absent
  status and to one whose lowercase is empty.
\<close>

lemma push_pr_exact:
  "push_pr w [] pr =
     (case url pr of
        None \<Rightarrow> []
      | Some u \<Rightarrow>
          (case regex_match u of
             None \<Rightarrow> []
           | Some m \<Rightarrow>
               [\<lparr>repo = fst m, number = parseInt (snd m),
                 state = (case ref_status pr of
                            None \<Rightarrow> ''unknown''
                          | Some s \<Rightarrow> if toLowerCase w s = [] then ''unknown''
                                      else toLowerCase w s)\<rparr>]))"
  by (simp add: push_pr_def Let_def split: option.splits)

lemma fetchLinkedPRs_ok:
  "jira_dev_status w i = Resp r \<Longrightarrow> ok r \<Longrightarrow> json r = Some data
   \<Longrightarrow> fetchLinkedPRs w i = collect_prs w data"
  by (simp add: fetchLinkedPRs_def fetchLinkedPRs_try_def)

text \<open>
  One reference against what is to be emitted for it, for a status that is absent or
  non-empty ASCII and a pull-request number that is a safe integer.
\<close>

lemma push_pr_emits:
  assumes status: "\<forall>s. ref_status pr = Some s \<longrightarrow> s \<noteq> [] \<and> list_all is_ascii s"
      and safe: "\<forall>u owner nm ds. url pr = Some u \<and> captures u owner nm ds
                   \<longrightarrow> decimal_value ds \<le> 9007199254740991"
  shows "emits pr (push_pr w [] pr)"
proof (cases "url pr")
  case None
  then show ?thesis by (simp add: emits_def push_pr_exact)
next
  case (Some u)
  show ?thesis
  proof (cases "regex_match u")
    case None
    have "\<not> (\<exists>owner nm ds. captures u owner nm ds)"
      using None captures_regex_match by fastforce
    then have "\<not> (\<exists>pre owner nm ds rest. pr_url_at u pre owner nm ds rest)"
      using captures_iff_shape [of u] by blast
    with Some None show ?thesis by (simp add: emits_def push_pr_exact)
  next
    case (Some m)
    from regex_match_captures [OF Some] obtain owner nm where
      m: "fst m = owner @ ''/'' @ nm" and c: "captures u owner nm (snd m)"
      by blast
    from c have shape: "\<exists>pre owner nm ds rest. pr_url_at u pre owner nm ds rest"
      unfolding captures_def by blast
    from c have digits: "list_all is_digit (snd m)"
      unfolding captures_def pr_url_at_def by blast
    from safe \<open>url pr = Some u\<close> c have "decimal_value (snd m) \<le> 9007199254740991"
      by blast
    with digits have number: "parseInt (snd m) = Exactly (decimal_value (snd m))"
      by (simp add: parseInt_def mathInt_decimal_value)
    have state: "(case ref_status pr of
                    None \<Rightarrow> ''unknown''
                  | Some s \<Rightarrow> if toLowerCase w s = [] then ''unknown'' else toLowerCase w s)
               = (case ref_status pr of None \<Rightarrow> ''unknown'' | Some s \<Rightarrow> map ascii_lower s)"
      using status by (auto simp: toLowerCase_ascii split: option.splits)
    have "push_pr w [] pr = [\<lparr>repo = owner @ ''/'' @ nm,
                              number = Exactly (decimal_value (snd m)),
                              state = (case ref_status pr of
                                         None \<Rightarrow> ''unknown''
                                       | Some s \<Rightarrow> map ascii_lower s)\<rparr>]"
      using \<open>url pr = Some u\<close> Some m number state by (simp add: push_pr_exact)
    with c shape \<open>url pr = Some u\<close> show ?thesis
      unfolding emits_def by auto
  qed
qed

lemma push_pr_emits_all:
  assumes statuses: "\<forall>pr\<in>set refs.
                       \<forall>s. ref_status pr = Some s \<longrightarrow> s \<noteq> [] \<and> list_all is_ascii s"
      and safe: "\<forall>pr\<in>set refs.
                   \<forall>u owner nm ds. url pr = Some u \<and> captures u owner nm ds
                     \<longrightarrow> decimal_value ds \<le> 9007199254740991"
  shows "list_all2 emits refs (map (push_pr w []) refs)"
proof -
  have each: "emits pr (push_pr w [] pr)" if "pr \<in> set refs" for pr
  proof (rule push_pr_emits)
    show "\<forall>s. ref_status pr = Some s \<longrightarrow> s \<noteq> [] \<and> list_all is_ascii s"
      using statuses that by blast
    show "\<forall>u owner nm ds. url pr = Some u \<and> captures u owner nm ds
            \<longrightarrow> decimal_value ds \<le> 9007199254740991"
      using safe that by blast
  qed
  show ?thesis
    unfolding list_all2_map2
    by (rule list_all2_all_nthI) (simp_all add: each)
qed

lemma emits_unique:
  assumes "emits pr out" and "emits pr out'"
  shows "out = out'"
proof (cases "url pr")
  case None
  with assms show ?thesis by (simp add: emits_def)
next
  case (Some u)
  show ?thesis
  proof (cases "\<exists>pre owner nm ds rest. pr_url_at u pre owner nm ds rest")
    case False
    with Some assms show ?thesis by (simp add: emits_def)
  next
    case True
    with Some assms obtain owner nm ds owner' nm' ds' where
      c: "captures u owner nm ds" "captures u owner' nm' ds'"
      and out: "out = [\<lparr>repo = owner @ ''/'' @ nm, number = Exactly (decimal_value ds),
                        state = (case ref_status pr of
                                   None \<Rightarrow> ''unknown''
                                 | Some s \<Rightarrow> map ascii_lower s)\<rparr>]"
        "out' = [\<lparr>repo = owner' @ ''/'' @ nm', number = Exactly (decimal_value ds'),
                  state = (case ref_status pr of
                             None \<Rightarrow> ''unknown''
                           | Some s \<Rightarrow> map ascii_lower s)\<rparr>]"
      unfolding emits_def by auto
    from captures_unique [OF c] out show ?thesis by simp
  qed
qed

text \<open>
  C7. For every development-panel document that is fetched (whose status strings,
  where present, are non-empty ASCII, and whose pull-request numbers are safe
  integers), \<^verbatim>\<open>fetchLinkedPRs\<close> returns, in the order of the references, what is to
  be emitted for each: exactly one linked PR for each reference whose URL has the
  shape \<^verbatim>\<open>github.com/<owner>/<name>/pull/<digits>\<close>, with \<open>repo\<close> the captured
  \<^verbatim>\<open>owner/name\<close>, \<open>number\<close> the decimal value of the captured digits and \<open>state\<close> the
  lowercased status, or \<^verbatim>\<open>unknown\<close> without a status; nothing for a reference
  without a URL or with a URL that has the shape nowhere. What is to be emitted for a
  reference is determined by the reference, and a URL has captures exactly when it has
  the shape somewhere.
\<close>

theorem fetchLinkedPRs_emits:
  assumes panel: "jira_dev_status w i = Resp r" "ok r" "json r = Some data"
      and statuses: "\<forall>pr\<in>set (references data).
                       \<forall>s. ref_status pr = Some s \<longrightarrow> s \<noteq> [] \<and> list_all is_ascii s"
      and safe: "\<forall>pr\<in>set (references data).
                   \<forall>u owner nm ds. url pr = Some u \<and> captures u owner nm ds
                     \<longrightarrow> decimal_value ds \<le> 9007199254740991"
  shows "(\<exists>outs. list_all2 emits (references data) outs \<and> fetchLinkedPRs w i = concat outs)
     \<and> (\<forall>pr out out'. emits pr out \<and> emits pr out' \<longrightarrow> out = out')
     \<and> (\<forall>u. (\<exists>owner nm ds. captures u owner nm ds)
              = (\<exists>pre owner nm ds rest. pr_url_at u pre owner nm ds rest))
     \<and> (\<forall>u owner nm ds owner' nm' ds'.
           captures u owner nm ds \<and> captures u owner' nm' ds'
           \<longrightarrow> owner = owner' \<and> nm = nm' \<and> ds = ds')"
proof -
  have "list_all2 emits (references data) (map (push_pr w []) (references data))"
    using statuses safe by (rule push_pr_emits_all)
  moreover have "fetchLinkedPRs w i = concat (map (push_pr w []) (references data))"
    using fetchLinkedPRs_ok [OF panel] by (simp add: collect_prs_references)
  ultimately have first: "\<exists>outs. list_all2 emits (references data) outs
                            \<and> fetchLinkedPRs w i = concat outs"
    by blast
  have second: "\<forall>pr out out'. emits pr out \<and> emits pr out' \<longrightarrow> out = out'"
    using emits_unique by blast
  have third: "\<forall>u. (\<exists>owner nm ds. captures u owner nm ds)
              = (\<exists>pre owner nm ds rest. pr_url_at u pre owner nm ds rest)"
    using captures_iff_shape by blast
  have fourth: "\<forall>u owner nm ds owner' nm' ds'.
           captures u owner nm ds \<and> captures u owner' nm' ds'
           \<longrightarrow> owner = owner' \<and> nm = nm' \<and> ds = ds'"
    using captures_unique by blast
  from first second third fourth show ?thesis by blast
qed

lemma list_all2_functional:
  "list_all2 R xs ys \<Longrightarrow> list_all2 R xs zs \<Longrightarrow> \<forall>x y z. R x y \<and> R x z \<longrightarrow> y = z
   \<Longrightarrow> ys = zs"
proof (induction xs arbitrary: ys zs)
  case Nil
  then show ?case by simp
next
  case (Cons x xs)
  then show ?case by (auto simp: list_all2_Cons1)
qed

lemmas eval_regex = match_here_def is_digit_def digit_chars_def digit_val_def parseInt_def
  mathInt_def toLowerCase_def lower_char_def is_ascii_def

text \<open>
  The example of the specification, with two references that are dropped: the URL
  \<^verbatim>\<open>https://github.com/acme/widgets/pull/42\<close> with status \<^verbatim>\<open>OPEN\<close>.
\<close>

theorem fetchLinkedPRs_emits_witness:
  "fetchLinkedPRs (panel_world widgets_panel) ''10001''
   = [\<lparr>repo = ''acme/widgets'', number = Exactly 42, state = ''open''\<rparr>]"
proof -
  let ?w = "panel_world widgets_panel"
  let ?refs = "[\<lparr>url = Some ''https://github.com/acme/widgets/pull/42'', ref_status = Some ''OPEN''\<rparr>,
         \<lparr>url = Some ''https://example.org/acme/widgets'', ref_status = Some ''MERGED''\<rparr>,
         \<lparr>url = None, ref_status = None\<rparr>]"
  have panel: "jira_dev_status ?w ''10001'' = Resp (ok_response widgets_panel)"
    "ok (ok_response widgets_panel)" "json (ok_response widgets_panel) = Some widgets_panel"
    by (simp_all add: panel_world_def offline_def ok_response_def)
  have refs: "references widgets_panel = ?refs"
    by (simp add: references_def widgets_panel_def)
  have m1: "regex_match ''https://github.com/acme/widgets/pull/42'' = Some (''acme/widgets'', ''42'')"
    by (simp add: eval_regex)
  have m2: "regex_match ''https://example.org/acme/widgets'' = None"
    by (simp add: eval_regex)
  have statuses: "\<forall>pr\<in>set (references widgets_panel).
                    \<forall>s. ref_status pr = Some s \<longrightarrow> s \<noteq> [] \<and> list_all is_ascii s"
    by (simp add: refs is_ascii_def)
  have d42: "decimal_value ''42'' = 42"
    using mathInt_decimal_value [of "''42''"] by (simp add: eval_regex)
  have safe: "\<forall>pr\<in>set (references widgets_panel).
                \<forall>u owner nm ds. url pr = Some u \<and> captures u owner nm ds
                  \<longrightarrow> decimal_value ds \<le> 9007199254740991"
  proof (intro ballI allI impI)
    fix pr u owner nm ds
    assume pr: "pr \<in> set (references widgets_panel)"
      and "url pr = Some u \<and> captures u owner nm ds"
    then have u: "url pr = Some u" and "regex_match u = Some (owner @ ''/'' @ nm, ds)"
      using captures_regex_match [of u owner nm ds] by simp_all
    with pr m1 m2 have "ds = ''42''"
      by (auto simp: refs)
    then show "decimal_value ds \<le> 9007199254740991"
      by (simp add: d42)
  qed
  from fetchLinkedPRs_emits [OF panel statuses safe] obtain outs where
    outs: "list_all2 emits (references widgets_panel) outs"
    and result: "fetchLinkedPRs ?w ''10001'' = concat outs"
    and unique: "\<forall>pr out out'. emits pr out \<and> emits pr out' \<longrightarrow> out = out'"
    by blast
  have "list_all2 emits (references widgets_panel)
          (map (push_pr ?w []) (references widgets_panel))"
    using statuses safe by (rule push_pr_emits_all)
  from list_all2_functional [OF outs this unique]
  have "outs = map (push_pr ?w []) (references widgets_panel)" .
  with result show ?thesis
    by (simp add: refs push_pr_exact m1 m2 eval_regex)
qed

text \<open>
  C8. Whenever the fetch of the development panel fails, by a thrown transport fault
  or by a non-success response, \<^verbatim>\<open>fetchLinkedPRs\<close> returns the empty list, and an
  issue lookup whose own fetch succeeded returns its result with \<open>prs = []\<close>.
\<close>

theorem fetchLinkedPRs_fail_soft:
  assumes "(\<exists>e. jira_dev_status w i = Threw e)
           \<or> (\<exists>r. jira_dev_status w i = Resp r \<and> \<not> ok r)"
  shows "fetchLinkedPRs w i = []
     \<and> (\<forall>k r issue. jira_issue w k = Resp r \<and> ok r \<and> json r = Some issue
                      \<and> issue_id issue = i
          \<longrightarrow> getIssue w k = Inr \<lparr>key = issue_key issue, summary = fields_summary issue,
                                   status = fields_status_name issue,
                                   assignee = or_null (fields_assignee_displayName issue),
                                   prs = []\<rparr>)"
proof -
  from assms have empty: "fetchLinkedPRs w i = []"
    by (auto simp: fetchLinkedPRs_def fetchLinkedPRs_try_def)
  then show ?thesis
    by (auto simp: getIssue_def Let_def)
qed

theorem fetchLinkedPRs_fail_soft_witness:
  "getIssue (issue_world (ok_response demo_issue) (Threw (Error ''socket hang up''))) ''PROJ-1''
     = Inr \<lparr>key = ''PROJ-1'', summary = ''Fix login'', status = Some ''In Progress'',
            assignee = None, prs = []\<rparr>
   \<and> getIssue (issue_world (ok_response demo_issue) (Resp (error_response 503 ''down'' None)))
        ''PROJ-1''
     = Inr \<lparr>key = ''PROJ-1'', summary = ''Fix login'', status = Some ''In Progress'',
            assignee = None, prs = []\<rparr>"
proof -
  let ?w1 = "issue_world (ok_response demo_issue) (Threw (Error ''socket hang up''))"
  let ?w2 = "issue_world (ok_response demo_issue) (Resp (error_response 503 ''down'' None))"
  have p1: "(\<exists>e. jira_dev_status ?w1 ''10001'' = Threw e)
            \<or> (\<exists>r. jira_dev_status ?w1 ''10001'' = Resp r \<and> \<not> ok r)"
    by (simp add: issue_world_def offline_def)
  have p2: "(\<exists>e. jira_dev_status ?w2 ''10001'' = Threw e)
            \<or> (\<exists>r. jira_dev_status ?w2 ''10001'' = Resp r \<and> \<not> ok r)"
    by (simp add: issue_world_def offline_def error_response_def)
  have i1: "jira_issue ?w1 ''PROJ-1'' = Resp (ok_response demo_issue)"
    and i2: "jira_issue ?w2 ''PROJ-1'' = Resp (ok_response demo_issue)"
    by (simp_all add: issue_world_def offline_def)
  have d: "ok (ok_response demo_issue)" "json (ok_response demo_issue) = Some demo_issue"
    "issue_id demo_issue = ''10001''"
    by (simp_all add: ok_response_def demo_issue_def)
  from fetchLinkedPRs_fail_soft [OF p1] i1 d
  have "getIssue ?w1 ''PROJ-1'' = Inr \<lparr>key = issue_key demo_issue,
          summary = fields_summary demo_issue, status = fields_status_name demo_issue,
          assignee = or_null (fields_assignee_displayName demo_issue), prs = []\<rparr>"
    by blast
  moreover from fetchLinkedPRs_fail_soft [OF p2] i2 d
  have "getIssue ?w2 ''PROJ-1'' = Inr \<lparr>key = issue_key demo_issue,
          summary = fields_summary demo_issue, status = fields_status_name demo_issue,
          assignee = or_null (fields_assignee_displayName demo_issue), prs = []\<rparr>"
    by blast
  ultimately show ?thesis
    by (simp add: demo_issue_def or_null_def)
qed

subsection \<open>The issue query\<close>

text \<open>
  C10. For every non-success response to the issue fetch, whatever its status code and
  body, \<^verbatim>\<open>getIssue\<close> throws the error with the message \<^verbatim>\<open>Issue not found: \<close> followed
  by the issue key: the result depends on the key alone.
\<close>

theorem getIssue_not_found:
  assumes "jira_issue w k = Resp r" and "\<not> ok r"
  shows "getIssue w k = Inl (Error (''Issue not found: '' @ k))"
  using assms by (simp add: getIssue_def)

text \<open>A 404 and a 500 give the same error.\<close>

theorem getIssue_not_found_witness:
  "getIssue (issue_world (error_response 404 ''Issue does not exist'' None)
              (Threw (Error ''offline''))) ''PROJ-1''
     = Inl (Error ''Issue not found: PROJ-1'')
   \<and> getIssue (issue_world (error_response 500 ''Internal Server Error'' None)
              (Threw (Error ''offline''))) ''PROJ-1''
     = Inl (Error ''Issue not found: PROJ-1'')"
proof -
  have a: "jira_issue (issue_world r p) ''PROJ-1'' = Resp r" for r p
    by (simp add: issue_world_def offline_def)
  have b: "\<not> ok (error_response n t None :: issue_doc response)" for n t
    by (simp add: error_response_def)
  from getIssue_not_found [OF a b] show ?thesis by simp
qed

subsection \<open>SprintStatusComputer\<close>

lemma getSprint_found:
  assumes "finds_sprint w p sprint d"
  shows "getSprint w p =
     Inr (Sprint \<lparr>name = sprint_name sprint, goal = or_null (sprint_goal sprint),
                   daysRemaining = days_remaining w sprint,
                   issues = map (\<lambda>issue. \<lparr>key = issue_key issue,
                                            summary = fields_summary issue,
                                            status = fields_status_name issue,
                                            assignee = or_null (fields_assignee_displayName issue)\<rparr>)
                              (case data_issues d of None \<Rightarrow> [] | Some xs \<Rightarrow> xs)\<rparr>)"
  using assms unfolding finds_sprint_def getSprint_def by auto

text \<open>\<open>ceil_div\<close> is the ceiling of the quotient of the reals.\<close>

lemma ceil_div_ceiling:
  assumes "0 < b"
  shows "ceil_div a b = \<lceil>real_of_int a / real_of_int b\<rceil>"
proof -
  have "\<lceil>real_of_int a / real_of_int b\<rceil> = - \<lfloor>real_of_int (- a) / real_of_int b\<rfloor>"
    by (simp add: ceiling_def)
  also have "\<dots> = - ((- a) div b)"
    by (simp only: floor_divide_of_int_eq)
  finally show ?thesis by (simp add: ceil_div_def)
qed

text \<open>
  C5. For every sprint that the query reaches: with an end date (a date string that
  denotes an instant \<open>e\<close>), \<open>daysRemaining\<close> is the ceiling of \<open>(e - now)\<close> divided by one
  day, but at least 0, hence a non-negative integer; without an end date it is
  \<^verbatim>\<open>null\<close>, not zero.
\<close>

theorem daysRemaining_ceiling:
  assumes "finds_sprint w p sprint d"
  shows "\<exists>v. getSprint w p = Inr (Sprint v)
     \<and> (endDate sprint = None \<longrightarrow> daysRemaining v = None)
     \<and> (\<forall>s e. endDate sprint = Some s \<and> s \<noteq> [] \<and> Date_parse w s = Some e \<longrightarrow>
            daysRemaining v
              = Some (Number (max 0 \<lceil>real_of_int (e - now w) / (1000 * 60 * 60 * 24)\<rceil>))
            \<and> (\<exists>n\<ge>0. daysRemaining v = Some (Number n)))"
proof -
  have c: "ceil_div (e - n) 86400000 = \<lceil>(real_of_int e - real_of_int n) / 86400000\<rceil>"
    for e n
    using ceil_div_ceiling [of 86400000 "e - n"] by simp
  show ?thesis
    unfolding getSprint_found [OF assms]
    by (auto simp: days_remaining_def c)
qed

text \<open>An end date 36 hours after the current time gives 2; no end date gives \<^verbatim>\<open>null\<close>.\<close>

theorem daysRemaining_ceiling_witness:
  "(\<exists>v. getSprint (sprint_world one_board (one_sprint demo_sprint) no_issues) ''PROJ''
          = Inr (Sprint v) \<and> daysRemaining v = Some (Number 2))
   \<and> (\<exists>v. getSprint (sprint_world one_board (one_sprint (demo_sprint\<lparr>endDate := None\<rparr>)) no_issues)
             ''PROJ'' = Inr (Sprint v) \<and> daysRemaining v = None)"
proof -
  have f: "finds_sprint (sprint_world one_board (one_sprint s) no_issues) ''PROJ'' s
             \<lparr>data_issues = Some []\<rparr>" for s
    by (simp add: finds_sprint_def sprint_world_def offline_def one_board_def one_sprint_def
                  no_issues_def ok_response_def)
  have e: "endDate demo_sprint = Some ''2024-01-02T12:00:00Z''"
    "Date_parse (sprint_world one_board (one_sprint demo_sprint) no_issues)
       ''2024-01-02T12:00:00Z'' = Some 1704196800000"
    "now (sprint_world one_board (one_sprint demo_sprint) no_issues) = 1704067200000"
    by (simp_all add: demo_sprint_def sprint_world_def offline_def iso_dates_def)
  have "\<lceil>real_of_int (1704196800000 - 1704067200000) / (1000 * 60 * 60 * 24)\<rceil> = 2"
    by (simp add: ceiling_eq_iff)
  with daysRemaining_ceiling [OF f [of demo_sprint]] e
  have "\<exists>v. getSprint (sprint_world one_board (one_sprint demo_sprint) no_issues) ''PROJ''
          = Inr (Sprint v) \<and> daysRemaining v = Some (Number 2)"
    by auto
  moreover from daysRemaining_ceiling [OF f [of "demo_sprint\<lparr>endDate := None\<rparr>"]]
  have "\<exists>v. getSprint (sprint_world one_board (one_sprint (demo_sprint\<lparr>endDate := None\<rparr>)) no_issues)
             ''PROJ'' = Inr (Sprint v) \<and> daysRemaining v = None"
    by auto
  ultimately show ?thesis by blast
qed

text \<open>
  C6. For every project: when the board response is not a success, or lists no board,
  \<^verbatim>\<open>getSprint\<close> throws the error \<^verbatim>\<open>No board found for project: \<close> followed by the
  project key; when a board is found and its list of active sprints is empty or
  missing, \<^verbatim>\<open>getSprint\<close> throws nothing and returns exactly
  \<^verbatim>\<open>{name: null, message: "No active sprint", issues: []}\<close>.
\<close>

theorem getSprint_board_or_sprint_absent:
  "(jira_board w p = Resp rb
      \<and> (\<not> ok rb \<or> (\<exists>bs. json rb = Some bs
                           \<and> (board_values bs = None \<or> board_values bs = Some [])))
    \<longrightarrow> getSprint w p = Inl (Error (''No board found for project: '' @ p)))
   \<and> (jira_board w p = Resp rb \<and> ok rb \<and> json rb = Some bs
       \<and> board_values bs = Some (b # bt)
       \<and> jira_sprint w (board_id b) = Resp rs \<and> ok rs \<and> json rs = Some ss
       \<and> (sprint_values ss = None \<or> sprint_values ss = Some [])
    \<longrightarrow> getSprint w p = Inr (NoSprint None ''No active sprint'' []))"
  by (auto simp: getSprint_def)

theorem getSprint_board_or_sprint_absent_witness:
  "getSprint (sprint_world (error_response 404 ''no such project'' None)
                (Threw (Error ''offline'')) (Threw (Error ''offline''))) ''NOPE''
     = Inl (Error ''No board found for project: NOPE'')
   \<and> getSprint (sprint_world (ok_response \<lparr>board_values = Some []\<rparr>)
                (Threw (Error ''offline'')) (Threw (Error ''offline''))) ''NOPE''
     = Inl (Error ''No board found for project: NOPE'')
   \<and> getSprint (sprint_world one_board (Resp (ok_response \<lparr>sprint_values = Some []\<rparr>))
                (Threw (Error ''offline''))) ''PROJ''
     = Inr (NoSprint None ''No active sprint'' [])"
proof -
  let ?off = "Threw (Error ''offline'')"
  let ?w1 = "sprint_world (error_response 404 ''no such project'' None) ?off ?off"
  let ?w2 = "sprint_world (ok_response \<lparr>board_values = Some []\<rparr>) ?off ?off"
  let ?w3 = "sprint_world one_board (Resp (ok_response \<lparr>sprint_values = Some []\<rparr>)) ?off"
  have b: "jira_board (sprint_world rb fs fi) q = Resp rb" for rb fs fi q
    by (simp add: sprint_world_def offline_def)
  have s: "jira_sprint (sprint_world rb fs fi) n = fs" for rb fs fi n
    by (simp add: sprint_world_def offline_def)
  have "getSprint ?w1 ''NOPE'' = Inl (Error (''No board found for project: '' @ ''NOPE''))"
    using getSprint_board_or_sprint_absent
            [of ?w1 "''NOPE''" "error_response 404 ''no such project'' None"] b
    by (simp add: error_response_def)
  moreover
  have "getSprint ?w2 ''NOPE'' = Inl (Error (''No board found for project: '' @ ''NOPE''))"
    using getSprint_board_or_sprint_absent
            [of ?w2 "''NOPE''" "ok_response \<lparr>board_values = Some []\<rparr>"] b
    by (simp add: ok_response_def)
  moreover
  have "getSprint ?w3 ''PROJ'' = Inr (NoSprint None ''No active sprint'' [])"
    using getSprint_board_or_sprint_absent
            [of ?w3 "''PROJ''" one_board "\<lparr>board_values = Some [\<lparr>board_id = 3\<rparr>]\<rparr>"
                "\<lparr>board_id = 3\<rparr>" "[]" "ok_response \<lparr>sprint_values = Some []\<rparr>"
                "\<lparr>sprint_values = Some []\<rparr>"] b s
    by (simp add: ok_response_def one_board_def)
  ultimately show ?thesis by simp
qed

subsection \<open>Non-success responses, query by query\<close>

lemma github_non_success:
  "getGitHubToken w = Inr t \<Longrightarrow> \<not> ok r \<Longrightarrow> github w (Resp r) = Inl (github_error r)"
  by (simp add: github_def github_error_def)

lemma getPRStatus_Inl_pull:
  "github w (github_pull w rp n) = Inl e
   \<Longrightarrow> getPRStatus w rp n =
       Inl (case github w (github_reviews w rp n) of
              Inr rs \<Rightarrow> e
            | Inl e' \<Rightarrow> if reviews_reject_first w then e' else e)"
  by (simp add: getPRStatus_def promise_all_def split: sum.splits)

lemma getPRStatus_Inl_reviews:
  "github w (github_reviews w rp n) = Inl e
   \<Longrightarrow> getPRStatus w rp n =
       Inl (case github w (github_pull w rp n) of
              Inr pr \<Rightarrow> e
            | Inl e' \<Rightarrow> if reviews_reject_first w then e else e')"
  by (simp add: getPRStatus_def promise_all_def split: sum.splits)

lemma getPRStatus_Inl_checks:
  "github w (github_pull w rp n) = Inr pr \<Longrightarrow> github w (github_reviews w rp n) = Inr rs
   \<Longrightarrow> github w (github_check_runs w rp (head_sha pr)) = Inl e
   \<Longrightarrow> getPRStatus w rp n = Inl e"
  by (simp add: getPRStatus_def promise_all_def fetchChecks_def)

text \<open>
  C2, as the code has it. A non-success response to a GitHub fetch always makes the
  query throw. For the fetch of the check runs and for the search, the error is
  \<^verbatim>\<open>GitHub API error <status>: <body>\<close> of that response. For the fetch of the PR or
  of its reviews, the two requests of the \<^verbatim>\<open>Promise.all\<close>, it is that error when the
  other request succeeds or rejects later; when both requests fail, the rejection that
  comes first is the one thrown: the status-and-body error of the other response if
  that was a non-success response too, the other request's own fault (a transport
  fault, a body that does not parse) otherwise. A non-success response to the issue
  fetch or to the board fetch makes the query throw a not-found error that names the
  issue or the project and carries neither status nor body. A non-success response to
  the fetch of the active sprints is not an error: the query returns
  \<^verbatim>\<open>{name: null, message: "No active sprint", issues: []}\<close>.
\<close>

theorem non_success_by_fetch:
  "(getGitHubToken w = Inr t \<and> github_pull w rp n = Resp r1 \<and> \<not> ok r1
      \<longrightarrow> getPRStatus w rp n =
            Inl (case github w (github_reviews w rp n) of
                   Inr rs \<Rightarrow> github_error r1
                 | Inl e \<Rightarrow> if reviews_reject_first w then e else github_error r1))
   \<and> (getGitHubToken w = Inr t \<and> github_reviews w rp n = Resp r2 \<and> \<not> ok r2
      \<longrightarrow> getPRStatus w rp n =
            Inl (case github w (github_pull w rp n) of
                   Inr pr \<Rightarrow> github_error r2
                 | Inl e \<Rightarrow> if reviews_reject_first w then github_error r2 else e))
   \<and> (getGitHubToken w = Inr t \<and> github_pull w rp n = Resp r1 \<and> \<not> ok r1
       \<and> github_reviews w rp n = Resp r2 \<and> \<not> ok r2
      \<longrightarrow> getPRStatus w rp n =
            Inl (if reviews_reject_first w then github_error r2 else github_error r1))
   \<and> (github w (github_pull w rp n) = Inr pr \<and> github w (github_reviews w rp n) = Inr rs
       \<and> github_check_runs w rp (head_sha pr) = Resp r3 \<and> \<not> ok r3
      \<longrightarrow> getPRStatus w rp n = Inl (github_error r3))
   \<and> (getGitHubToken w = Inr t \<and> github_search w (''is:pr '' @ q) = Resp r4 \<and> \<not> ok r4
      \<longrightarrow> searchPRs w q = Inl (github_error r4))
   \<and> (jira_issue w k = Resp r5 \<and> \<not> ok r5
      \<longrightarrow> getIssue w k = Inl (Error (''Issue not found: '' @ k)))
   \<and> (jira_board w p = Resp r6 \<and> \<not> ok r6
      \<longrightarrow> getSprint w p = Inl (Error (''No board found for project: '' @ p)))
   \<and> (jira_board w p = Resp rb \<and> ok rb \<and> json rb = Some bs
       \<and> board_values bs = Some (b # bt)
       \<and> jira_sprint w (board_id b) = Resp r7 \<and> \<not> ok r7
      \<longrightarrow> getSprint w p = Inr (NoSprint None ''No active sprint'' []))"
proof (intro conjI impI)
  assume a: "getGitHubToken w = Inr t \<and> github_pull w rp n = Resp r1 \<and> \<not> ok r1"
  then have "github w (github_pull w rp n) = Inl (github_error r1)"
    by (simp add: github_non_success)
  then show "getPRStatus w rp n =
            Inl (case github w (github_reviews w rp n) of
                   Inr rs \<Rightarrow> github_error r1
                 | Inl e \<Rightarrow> if reviews_reject_first w then e else github_error r1)"
    by (rule getPRStatus_Inl_pull)
next
  assume a: "getGitHubToken w = Inr t \<and> github_reviews w rp n = Resp r2 \<and> \<not> ok r2"
  then have "github w (github_reviews w rp n) = Inl (github_error r2)"
    by (simp add: github_non_success)
  then show "getPRStatus w rp n =
            Inl (case github w (github_pull w rp n) of
                   Inr pr \<Rightarrow> github_error r2
                 | Inl e \<Rightarrow> if reviews_reject_first w then github_error r2 else e)"
    by (rule getPRStatus_Inl_reviews)
next
  assume a: "getGitHubToken w = Inr t \<and> github_pull w rp n = Resp r1 \<and> \<not> ok r1
       \<and> github_reviews w rp n = Resp r2 \<and> \<not> ok r2"
  then have "github w (github_pull w rp n) = Inl (github_error r1)"
    and "github w (github_reviews w rp n) = Inl (github_error r2)"
    by (simp_all add: github_non_success)
  then show "getPRStatus w rp n =
            Inl (if reviews_reject_first w then github_error r2 else github_error r1)"
    by (simp add: getPRStatus_Inl_pull)
next
  assume a: "github w (github_pull w rp n) = Inr pr \<and> github w (github_reviews w rp n) = Inr rs
       \<and> github_check_runs w rp (head_sha pr) = Resp r3 \<and> \<not> ok r3"
  then obtain t' where "getGitHubToken w = Inr t'"
    by (auto simp: github_def split: sum.splits)
  with a have "github w (github_check_runs w rp (head_sha pr)) = Inl (github_error r3)"
    by (simp add: github_non_success)
  with a show "getPRStatus w rp n = Inl (github_error r3)"
    by (simp add: getPRStatus_Inl_checks)
next
  assume "getGitHubToken w = Inr t \<and> github_search w (''is:pr '' @ q) = Resp r4 \<and> \<not> ok r4"
  then show "searchPRs w q = Inl (github_error r4)"
    by (simp add: searchPRs_def github_non_success)
next
  assume "jira_issue w k = Resp r5 \<and> \<not> ok r5"
  then show "getIssue w k = Inl (Error (''Issue not found: '' @ k))"
    by (simp add: getIssue_def)
next
  assume "jira_board w p = Resp r6 \<and> \<not> ok r6"
  then show "getSprint w p = Inl (Error (''No board found for project: '' @ p))"
    by (simp add: getSprint_def)
next
  assume "jira_board w p = Resp rb \<and> ok rb \<and> json rb = Some bs
       \<and> board_values bs = Some (b # bt)
       \<and> jira_sprint w (board_id b) = Resp r7 \<and> \<not> ok r7"
  then show "getSprint w p = Inr (NoSprint None ''No active sprint'' [])"
    by (simp add: getSprint_def)
qed

text \<open>
  A 404 for the PR with the reviews fetched; the same 404 when the fetch of the reviews
  fails in transport first; a 500 for the search; a 500 for the active sprints.
\<close>

theorem non_success_by_fetch_witness:
  "getPRStatus ((github_world demo_pr [] [])\<lparr>github_pull := (\<lambda>r n. Resp not_found)\<rparr>)
       ''acme/widgets'' 42
     = Inl (Error ''GitHub API error 404: Not Found'')
   \<and> getPRStatus (offline\<lparr>github_pull := (\<lambda>r n. Resp not_found),
                           github_reviews := (\<lambda>r n. Threw (Error ''socket hang up'')),
                           reviews_reject_first := True\<rparr>)
       ''acme/widgets'' 42
     = Inl (Error ''socket hang up'')
   \<and> searchPRs (offline\<lparr>github_search := (\<lambda>q. Resp server_error)\<rparr>) ''widgets''
     = Inl (Error ''GitHub API error 500: Internal Server Error'')
   \<and> getSprint (sprint_world one_board (Resp server_error) (Threw (Error ''offline''))) ''PROJ''
     = Inr (NoSprint None ''No active sprint'' [])"
proof -
  let ?w1 = "(github_world demo_pr [] [])\<lparr>github_pull := (\<lambda>r n. Resp not_found)\<rparr>"
  let ?w1' = "offline\<lparr>github_pull := (\<lambda>r n. Resp not_found),
                      github_reviews := (\<lambda>r n. Threw (Error ''socket hang up'')),
                      reviews_reject_first := True\<rparr>"
  let ?w2 = "offline\<lparr>github_search := (\<lambda>q. Resp server_error)\<rparr>"
  let ?w3 = "sprint_world one_board (Resp server_error) (Threw (Error ''offline''))"
  have e404: "github_error (not_found :: pr_doc response) = Error ''GitHub API error 404: Not Found''"
    by (simp add: github_error_def not_found_def error_response_def show_nat.simps digit_chars_def)
  have e500: "github_error (server_error :: search_doc response)
              = Error ''GitHub API error 500: Internal Server Error''"
    by (simp add: github_error_def server_error_def error_response_def show_nat.simps
                  digit_chars_def)
  have "getPRStatus ?w1 ''acme/widgets'' 42 = Inl (Error ''GitHub API error 404: Not Found'')"
  proof -
    have h: "getGitHubToken ?w1 = Inr ''secret''
         \<and> github_pull ?w1 ''acme/widgets'' 42 = Resp not_found
         \<and> \<not> ok (not_found :: pr_doc response)"
      by (simp add: github_world_def offline_def getGitHubToken_def not_found_def
                    error_response_def)
    have reviews_ok: "github ?w1 (github_reviews ?w1 ''acme/widgets'' 42) = Inr []"
      by (simp add: github_world_def offline_def getGitHubToken_def github_def ok_response_def)
    from non_success_by_fetch [THEN conjunct1, THEN mp, OF h] reviews_ok
    show ?thesis by (simp add: e404)
  qed
  moreover
  have "getPRStatus ?w1' ''acme/widgets'' 42 = Inl (Error ''socket hang up'')"
  proof -
    have h: "getGitHubToken ?w1' = Inr ''secret''
         \<and> github_pull ?w1' ''acme/widgets'' 42 = Resp not_found
         \<and> \<not> ok (not_found :: pr_doc response)"
      by (simp add: offline_def getGitHubToken_def not_found_def error_response_def)
    have reviews_threw: "github ?w1' (github_reviews ?w1' ''acme/widgets'' 42)
                         = Inl (Error ''socket hang up'')"
      by (simp add: offline_def getGitHubToken_def github_def)
    have first: "reviews_reject_first ?w1'" by simp
    from non_success_by_fetch [THEN conjunct1, THEN mp, OF h] reviews_threw first
    show ?thesis by simp
  qed
  moreover
  have "searchPRs ?w2 ''widgets'' = Inl (Error ''GitHub API error 500: Internal Server Error'')"
  proof -
    have h: "getGitHubToken ?w2 = Inr ''secret''
         \<and> github_search ?w2 (''is:pr '' @ ''widgets'') = Resp server_error
         \<and> \<not> ok (server_error :: search_doc response)"
      by (simp add: offline_def getGitHubToken_def server_error_def error_response_def)
    from non_success_by_fetch
           [THEN conjunct2, THEN conjunct2, THEN conjunct2, THEN conjunct2, THEN conjunct1,
            THEN mp, OF h]
    show ?thesis by (simp only: e500)
  qed
  moreover
  have "getSprint ?w3 ''PROJ'' = Inr (NoSprint None ''No active sprint'' [])"
  proof -
    have h: "jira_board ?w3 ''PROJ'' = Resp one_board \<and> ok one_board
         \<and> json one_board = Some \<lparr>board_values = Some [\<lparr>board_id = 3\<rparr>]\<rparr>
         \<and> board_values \<lparr>board_values = Some [\<lparr>board_id = 3\<rparr>]\<rparr> = Some [\<lparr>board_id = 3\<rparr>]
         \<and> jira_sprint ?w3 (board_id \<lparr>board_id = 3\<rparr>) = Resp server_error
         \<and> \<not> ok (server_error :: sprints_doc response)"
      by (simp add: sprint_world_def offline_def one_board_def ok_response_def
                    server_error_def error_response_def)
    from non_success_by_fetch
           [THEN conjunct2, THEN conjunct2, THEN conjunct2, THEN conjunct2, THEN conjunct2,
            THEN conjunct2, THEN conjunct2, THEN mp, OF h]
    show ?thesis .
  qed
  ultimately show ?thesis by simp
qed

text \<open>
  C2 as stated fails in the sprint query: with a 500 response to the fetch of the
  active sprints the query returns the no-sprint record, and with a 500 response to the
  fetch of the sprint's issues, its body the JSON object \<^verbatim>\<open>{}\<close>, it returns the sprint
  with an empty issue list. Neither aborts.
\<close>

theorem sprint_fetch_failures_not_fatal:
  "\<not> ok (server_error :: sprints_doc response)
   \<and> getSprint (sprint_world one_board (Resp server_error) (Threw (Error ''offline''))) ''PROJ''
       = Inr (NoSprint None ''No active sprint'' [])
   \<and> \<not> ok (error_response 500 ''{}'' (Some \<lparr>data_issues = None\<rparr>))
   \<and> (\<exists>v. getSprint (sprint_world one_board (one_sprint demo_sprint)
                 (Resp (error_response 500 ''{}'' (Some \<lparr>data_issues = None\<rparr>)))) ''PROJ''
            = Inr (Sprint v) \<and> name v = ''Sprint 12'' \<and> issues v = [])"
  by (simp add: getSprint_def sprint_world_def offline_def one_board_def one_sprint_def
                ok_response_def server_error_def error_response_def demo_sprint_def)

end
